theory Spec2Isabelle
  imports Complex_Main "HOL-Library.Char_ord" "HOL-Library.List_Lexorder"
begin

section \<open>Data model of GDB.py\<close>

text \<open>
  The dashboard script \<^verbatim>\<open>GDB.py\<close> reads a CSV with \<^verbatim>\<open>pd.read_csv\<close> and works on the
  resulting pandas frame. The library's CSV parser is not part of the repository: the
  model starts from the parsed frame.

  A cell of a year column is classified by what the two numeric coercions of the
  script make of it, \<^verbatim>\<open>pd.to_numeric(..., errors="coerce")\<close> in \<open>load_data\<close> and
  \<^verbatim>\<open>.astype(float)\<close> (Python's \<^verbatim>\<open>float\<close> on a text) in \<open>compute_growth\<close>:
  \<^item> \<open>Num x\<close>: the cell denotes the number \<open>x\<close> for both;
  \<^item> \<open>Missing\<close>: the cell is empty (pandas' NaN);
  \<^item> \<open>FloatText s x\<close>: the cell holds a text \<open>s\<close> that \<^verbatim>\<open>pd.to_numeric\<close> does not
    accept and \<^verbatim>\<open>float\<close> reads as \<open>x\<close>, such as \<^verbatim>\<open>1_000\<close>;
  \<^item> \<open>Text s\<close>: the cell holds a text that neither accepts.
  Amounts are 64-bit floats in the source; the model computes with real numbers, so
  rounding, overflow and infinities are not represented.
\<close>

datatype py_error = ValueError | IndexError | KeyError | PandasError

datatype cell = Num real | Missing | FloatText string real | Text string

text \<open>
  A frame as \<^verbatim>\<open>pd.read_csv\<close> returns it, stored column by column as pandas does: the
  first column (header and values, the department names) and the remaining columns in
  file order, each with its header and its cells. Headers are strings, also for a
  header such as \<^verbatim>\<open>2014\<close>. The values of the first column have one type \<open>'d\<close>, the
  column's dtype: strings for names, integers when every name is a number; they are
  compared and sorted in the order of that type. The parser never returns a frame without columns (it raises
  on an empty document), so \<^verbatim>\<open>df.columns[0]\<close> always exists.
\<close>

record 'd dataframe =
  first_header :: string
  first_values :: "'d list"
  other_columns :: "(string \<times> cell list) list"

definition columns :: "'d dataframe \<Rightarrow> string list" where
  "columns df = first_header df # map fst (other_columns df)"

text \<open>
  Every column of a frame has one value per row. The parser also makes the headers
  distinct (a repeated header gets a numeric suffix); where a property needs this it
  assumes \<open>distinct (columns df)\<close>.
\<close>

definition rectangular :: "'d dataframe \<Rightarrow> bool" where
  "rectangular df \<longleftrightarrow>
     list_all (\<lambda>c. length (snd c) = length (first_values df)) (other_columns df)"

text \<open>A row of the long table \<^verbatim>\<open>long_df\<close>: columns Department, Year, Budget.\<close>

record 'd budget_record =
  Department :: 'd
  Year :: string
  Budget :: real

section \<open>load_data\<close>

text \<open>
  \<^verbatim>\<open>df.rename(columns={old: new}, inplace=True)\<close> renames every column labelled \<open>old\<close>.
\<close>

definition rename_columns :: "string \<Rightarrow> string \<Rightarrow> 'd dataframe \<Rightarrow> 'd dataframe" where
  "rename_columns old new df =
     df\<lparr>first_header := (if first_header df = old then new else first_header df),
        other_columns := map (\<lambda>c. (if fst c = old then new else fst c, snd c)) (other_columns df)\<rparr>"

text \<open>
  \<^verbatim>\<open>df.melt(id_vars="Department", value_vars=year_cols, var_name="Year", value_name="Budget")\<close>
  on a frame whose first column is labelled Department.
  pandas raises ValueError when a column is already called like \<open>value_name\<close>, and the
  melt fails inside pandas when the label of the identifier column occurs twice (the
  popped identifier is then a frame, not a column; the class of the exception depends
  on the pandas version and is written \<open>PandasError\<close>). Otherwise the value columns are taken in
  column order and unrolled column by column: the identifier values are tiled once per
  value column, the header is repeated once per row.
\<close>

definition melt :: "'d dataframe \<Rightarrow> string list \<Rightarrow> py_error + ('d \<times> string \<times> cell) list" where
  "melt df value_vars =
     (if ''Budget'' \<in> set (columns df) then Inl ValueError
      else if ''Department'' \<in> set (map fst (other_columns df)) then Inl PandasError
      else Inr (concat (map (\<lambda>c. map (\<lambda>dv. (fst dv, fst c, snd dv)) (zip (first_values df) (snd c)))
                  (filter (\<lambda>c. fst c \<in> set value_vars) (other_columns df)))))"

text \<open>\<^verbatim>\<open>pd.to_numeric(..., errors="coerce")\<close> on one cell: NaN (here \<open>None\<close>) unless numeric.\<close>

fun to_numeric :: "cell \<Rightarrow> real option" where
  "to_numeric (Num x) = Some x"
| "to_numeric Missing = None"
| "to_numeric (FloatText s x) = None"
| "to_numeric (Text s) = None"

text \<open>
  The coercion of the Budget column followed by \<^verbatim>\<open>dropna(subset=["Budget"])\<close>: a melted
  row survives exactly when its cell is numeric. \<^verbatim>\<open>astype(str)\<close> on the Year column
  leaves the header strings as they are.
\<close>

definition coerce_dropna :: "('d \<times> string \<times> cell) list \<Rightarrow> 'd budget_record list" where
  "coerce_dropna m =
     List.map_filter (\<lambda>t. case to_numeric (snd (snd t)) of
                             None \<Rightarrow> None
                           | Some x \<Rightarrow> Some \<lparr>Department = fst t, Year = fst (snd t), Budget = x\<rparr>) m"

definition load_data :: "'d dataframe \<Rightarrow> py_error + ('d dataframe \<times> 'd budget_record list \<times> string list)" where
  "load_data df0 =
     (let df = rename_columns (first_header df0) ''Department'' df0;
          year_cols = filter (\<lambda>c. c \<noteq> ''Department'') (columns df)
      in case melt df year_cols of
           Inl e \<Rightarrow> Inl e
         | Inr m \<Rightarrow> Inr (df, coerce_dropna m, year_cols))"

section \<open>Python built-ins used by the script\<close>

text \<open>Sequencing of fallible steps: the first exception ends the computation.\<close>

definition and_then :: "py_error + 'a \<Rightarrow> ('a \<Rightarrow> py_error + 'b) \<Rightarrow> py_error + 'b" where
  "and_then r f = (case r of Inl e \<Rightarrow> Inl e | Inr x \<Rightarrow> f x)"

text \<open>
  \<^verbatim>\<open>min\<close> and \<open>max\<close> of a list: ValueError on the empty list, otherwise the first
  smallest (largest) element. On strings the order is Python's: lexicographic by code
  point, which on byte strings is the order of \<^typ>\<open>string\<close> below.
\<close>

definition py_min :: "'a::linorder list \<Rightarrow> py_error + 'a" where
  "py_min xs = (case xs of [] \<Rightarrow> Inl ValueError
                | x # ys \<Rightarrow> Inr (fold (\<lambda>y m. if y < m then y else m) ys x))"

definition py_max :: "'a::linorder list \<Rightarrow> py_error + 'a" where
  "py_max xs = (case xs of [] \<Rightarrow> Inl ValueError
                | x # ys \<Rightarrow> Inr (fold (\<lambda>y m. if m < y then y else m) ys x))"

text \<open>
  \<^verbatim>\<open>int(s)\<close> for a string, base ten: surrounding whitespace is skipped, one sign is
  allowed, then decimal digits with single underscores between digits; anything else
  is a ValueError. The model is exact on ASCII strings; the Unicode digits and spaces
  that Python also accepts, and the interpreter's limit on the length of a decimal
  conversion, are not represented.
\<close>

definition py_isspace :: "char \<Rightarrow> bool" where
  "py_isspace c \<longleftrightarrow> (let n = (of_char c :: nat) in (9 \<le> n \<and> n \<le> 13) \<or> n = 32)"

definition is_digit :: "char \<Rightarrow> bool" where
  "is_digit c \<longleftrightarrow> (let n = (of_char c :: nat) in 48 \<le> n \<and> n \<le> 57)"

definition digit_val :: "char \<Rightarrow> nat" where
  "digit_val c = of_char c - 48"

definition digits_val :: "string \<Rightarrow> nat" where
  "digits_val s = foldl (\<lambda>a c. 10 * a + digit_val c) 0 s"

fun double_underscore :: "string \<Rightarrow> bool" where
  "double_underscore (a # b # s) \<longleftrightarrow> (a = CHR ''_'' \<and> b = CHR ''_'') \<or> double_underscore (b # s)"
| "double_underscore s \<longleftrightarrow> False"

definition py_int :: "string \<Rightarrow> py_error + int" where
  "py_int s =
     (let t = dropWhile py_isspace s;
          neg = (t \<noteq> [] \<and> hd t = CHR ''-'');
          u = (if t \<noteq> [] \<and> (hd t = CHR ''-'' \<or> hd t = CHR ''+'') then tl t else t);
          body = takeWhile (\<lambda>c. is_digit c \<or> c = CHR ''_'') u;
          rest = dropWhile (\<lambda>c. is_digit c \<or> c = CHR ''_'') u
      in if body = [] \<or> hd body = CHR ''_'' \<or> last body = CHR ''_'' \<or> double_underscore body
            \<or> \<not> list_all py_isspace rest
         then Inl ValueError
         else Inr ((if neg then - 1 else 1) * int (digits_val (filter is_digit body))))"

text \<open>\<^verbatim>\<open>str(y)\<close> for an integer: the decimal numeral without leading zeros, \<^verbatim>\<open>-\<close> first if negative.\<close>

definition digit_char :: "nat \<Rightarrow> char" where
  "digit_char d = char_of (48 + d)"

fun nat_digits :: "nat \<Rightarrow> string" where
  "nat_digits n = (if n < 10 then [digit_char n] else nat_digits (n div 10) @ [digit_char (n mod 10)])"

declare nat_digits.simps [simp del]

definition py_str :: "int \<Rightarrow> string" where
  "py_str y = (if y < 0 then CHR ''-'' # nat_digits (nat (- y)) else nat_digits (nat y))"

text \<open>\<^verbatim>\<open>frame[col].iloc[0]\<close>: the first value, IndexError when there is none.\<close>

definition iloc0 :: "'a list \<Rightarrow> py_error + 'a" where
  "iloc0 xs = (case xs of [] \<Rightarrow> Inl IndexError | x # _ \<Rightarrow> Inr x)"

section \<open>Sidebar: year range and filter\<close>

text \<open>
  Lines 60 to 66: \<^verbatim>\<open>min_year, max_year = min(year_cols), max(year_cols)\<close> compares the
  header strings; only the two results are converted with \<^verbatim>\<open>int\<close>, for the slider.
\<close>

definition year_bounds :: "string list \<Rightarrow> py_error + (int \<times> int)" where
  "year_bounds year_cols =
     and_then (py_min year_cols) (\<lambda>min_year.
     and_then (py_max year_cols) (\<lambda>max_year.
     and_then (py_int min_year) (\<lambda>lo.
     and_then (py_int max_year) (\<lambda>hi. Inr (lo, hi)))))"

text \<open>
  Lines 71 and 72. \<open>year_range\<close> is the pair the slider returns.
  \<^verbatim>\<open>selected_years = [str(y) for y in range(year_range[0], year_range[1] + 1)]\<close> and
  \<^verbatim>\<open>filtered_long = long_df[long_df["Year"].isin(selected_years)]\<close>.
\<close>

definition selected_years :: "int \<times> int \<Rightarrow> string list" where
  "selected_years year_range = map py_str [fst year_range..snd year_range]"

definition filtered_long :: "'d budget_record list \<Rightarrow> int \<times> int \<Rightarrow> 'd budget_record list" where
  "filtered_long long_df year_range =
     filter (\<lambda>r. Year r \<in> set (selected_years year_range)) long_df"

section \<open>Overview tab\<close>

text \<open>
  \<^verbatim>\<open>groupby(key, as_index=False)["Budget"].sum()\<close>: one row per key that occurs, keys in
  ascending order (the default \<^verbatim>\<open>sort=True\<close>), with the sum of the group's budgets.
\<close>

definition groupby_sum ::
    "('d budget_record \<Rightarrow> 'k::linorder) \<Rightarrow> 'd budget_record list \<Rightarrow> ('k \<times> real) list" where
  "groupby_sum key recs =
     map (\<lambda>k. (k, sum_list (map Budget (filter (\<lambda>r. key r = k) recs))))
       (sort (remdups (map key recs)))"

text \<open>
  Lines 101 to 104. The keys of the grouped frame are distinct, so the result of
  \<^verbatim>\<open>sort_values("Year")\<close> does not depend on how the sort treats ties.
\<close>

definition total_by_year :: "'d budget_record list \<Rightarrow> (string \<times> real) list" where
  "total_by_year filtered = sort_key fst (groupby_sum Year filtered)"

text \<open>
  Lines 108 to 111, the headline metrics: first-year total, latest-year total, their
  difference and the percent change. \<^verbatim>\<open>max(selected_years)\<close> and
  \<^verbatim>\<open>min(selected_years)\<close> compare strings.
\<close>

definition headline_metrics ::
    "'d budget_record list \<Rightarrow> string list \<Rightarrow> py_error + (real \<times> real \<times> real \<times> real)" where
  "headline_metrics filtered selected =
     (let tby = total_by_year filtered in
      and_then (py_max selected) (\<lambda>latest_year.
      and_then (iloc0 (map snd (filter (\<lambda>t. fst t = latest_year) tby))) (\<lambda>total_budget_latest.
      and_then (py_min selected) (\<lambda>first_year.
      and_then (iloc0 (map snd (filter (\<lambda>t. fst t = first_year) tby))) (\<lambda>total_budget_first.
        let abs_change = total_budget_latest - total_budget_first;
            pct_change = (if total_budget_first \<noteq> 0
                          then abs_change / total_budget_first * 100 else 0)
        in Inr (total_budget_first, total_budget_latest, abs_change, pct_change))))))"

section \<open>Department tab: compute_growth\<close>

text \<open>A numpy float: a number or NaN. NaN spreads through arithmetic and differs from 0.\<close>

datatype pyfloat = Fin real | NaN

fun fsub :: "pyfloat \<Rightarrow> pyfloat \<Rightarrow> pyfloat" where
  "fsub (Fin a) (Fin b) = Fin (a - b)"
| "fsub _ _ = NaN"

fun fdiv :: "pyfloat \<Rightarrow> pyfloat \<Rightarrow> pyfloat" where
  "fdiv (Fin a) (Fin b) = Fin (a / b)"
| "fdiv _ _ = NaN"

fun fmul :: "pyfloat \<Rightarrow> pyfloat \<Rightarrow> pyfloat" where
  "fmul (Fin a) (Fin b) = Fin (a * b)"
| "fmul _ _ = NaN"

fun nonzero :: "pyfloat \<Rightarrow> bool" where
  "nonzero (Fin a) \<longleftrightarrow> a \<noteq> 0"
| "nonzero NaN \<longleftrightarrow> True"

text \<open>
  \<^verbatim>\<open>.values.astype(float)\<close> applies \<^verbatim>\<open>float\<close> to each value: a text that \<^verbatim>\<open>float\<close>
  cannot read raises ValueError.
\<close>

fun astype_float :: "cell list \<Rightarrow> py_error + pyfloat list" where
  "astype_float [] = Inr []"
| "astype_float (Num x # cs) = and_then (astype_float cs) (\<lambda>vs. Inr (Fin x # vs))"
| "astype_float (Missing # cs) = and_then (astype_float cs) (\<lambda>vs. Inr (NaN # vs))"
| "astype_float (FloatText s x # cs) = and_then (astype_float cs) (\<lambda>vs. Inr (Fin x # vs))"
| "astype_float (Text s # cs) = Inl ValueError"

text \<open>A row of the wide frame as a pandas Series: the value of each column label.\<close>

type_synonym series = "(string \<times> cell) list"

text \<open>\<^verbatim>\<open>row[year_cols]\<close>: the values at the given labels, KeyError if one is absent.\<close>

definition series_select :: "series \<Rightarrow> string list \<Rightarrow> py_error + cell list" where
  "series_select row labels =
     (case those (map (map_of row) labels) of None \<Rightarrow> Inl KeyError | Some cs \<Rightarrow> Inr cs)"

type_synonym growth = "pyfloat \<times> pyfloat \<times> pyfloat \<times> pyfloat option"

definition compute_growth :: "series \<Rightarrow> string list \<Rightarrow> py_error + growth" where
  "compute_growth row year_cols =
     and_then (series_select row year_cols) (\<lambda>cs.
     and_then (astype_float cs) (\<lambda>values.
       if values = [] then Inl IndexError
       else let start = hd values;
                end = last values;
                absolute_change = fsub end start;
                pct_change = (if nonzero start
                              then Some (fmul (fdiv absolute_change start) (Fin 100)) else None)
            in Inr (start, end, absolute_change, pct_change)))"

text \<open>
  Lines 169 and 178: \<^verbatim>\<open>df[df["Department"] == dept].set_index("Department").loc[dept]\<close>.
  No matching row is a KeyError. One matching row gives that row as a Series. With
  several matching rows \<^verbatim>\<open>.loc\<close> returns a frame, on which the metrics cannot be
  computed or rendered (ValueError or TypeError, by the number of year columns); the
  model reports ValueError.
\<close>

definition dept_row :: "'d dataframe \<Rightarrow> 'd \<Rightarrow> py_error + series" where
  "dept_row df dept =
     (case filter (\<lambda>i. first_values df ! i = dept) [0..<length (first_values df)] of
        [] \<Rightarrow> Inl KeyError
      | [i] \<Rightarrow> Inr (map (\<lambda>c. (fst c, snd c ! i)) (other_columns df))
      | _ \<Rightarrow> Inl ValueError)"

text \<open>
  Lines 164 to 167: the select box offers \<^verbatim>\<open>sorted(filtered_long["Department"].unique())\<close>
  and returns the option at the position the user picked, or \<^verbatim>\<open>None\<close> when there are
  no options (the widget never reports a position outside the list).
\<close>

definition dept_options :: "'d::linorder budget_record list \<Rightarrow> 'd list" where
  "dept_options filtered = sort (remdups (map Department filtered))"

definition selectbox :: "'a list \<Rightarrow> nat \<Rightarrow> 'a option" where
  "selectbox options k = (if k < length options then Some (options ! k) else None)"

text \<open>
  Lines 177 to 179: the growth metrics of the selected department, from the wide frame
  and the full list \<open>year_cols\<close>. With no department selected the lookup
  \<^verbatim>\<open>.loc[None]\<close> finds no row.
\<close>

definition tab_dept_growth ::
    "'d::linorder dataframe \<Rightarrow> 'd budget_record list \<Rightarrow> string list \<Rightarrow> nat \<Rightarrow> py_error + growth" where
  "tab_dept_growth df filtered year_cols k =
     (case selectbox (dept_options filtered) k of
        None \<Rightarrow> Inl KeyError
      | Some dept \<Rightarrow> and_then (dept_row df dept) (\<lambda>row. compute_growth row year_cols))"

text \<open>
  Line 188, the delta shown under the latest-year metric: the literal \<^verbatim>\<open>N/A\<close> when
  \<open>pct_change\<close> is \<^verbatim>\<open>None\<close>, otherwise the formatted change and percentage (number
  formatting is not modelled).
\<close>

datatype delta_text = Literal string | Formatted pyfloat pyfloat

definition growth_delta :: "growth \<Rightarrow> delta_text" where
  "growth_delta g =
     (case g of (start, end, abs_change, pct_change) \<Rightarrow>
        (case pct_change of None \<Rightarrow> Literal ''N/A'' | Some p \<Rightarrow> Formatted abs_change p))"

section \<open>The script up to the tabs\<close>

text \<open>
  Lines 55 to 72 in order: load, year bounds for the slider, the slider's value
  \<open>year_range\<close>, the filter. The result is what the tabs work on.
\<close>

definition prepare ::
    "'d dataframe \<Rightarrow> int \<times> int
      \<Rightarrow> py_error + ('d dataframe \<times> 'd budget_record list \<times> string list \<times> 'd budget_record list)" where
  "prepare df0 year_range =
     and_then (load_data df0) (\<lambda>(df, long_df, year_cols).
     and_then (year_bounds year_cols) (\<lambda>bounds.
       Inr (df, long_df, year_cols, filtered_long long_df year_range)))"

section \<open>Notions used to state the properties\<close>

text \<open>Number of rows (departments) and of year columns of a frame, and the cell of a column and row.\<close>

definition n_rows :: "'d dataframe \<Rightarrow> nat" where
  "n_rows df = length (first_values df)"

definition n_year_cols :: "'d dataframe \<Rightarrow> nat" where
  "n_year_cols df = length (other_columns df)"

definition cell_at :: "'d dataframe \<Rightarrow> nat \<Rightarrow> nat \<Rightarrow> cell" where
  "cell_at df j i = snd (other_columns df ! j) ! i"

text \<open>All (column, row) positions of the year cells, column by column.\<close>

definition cell_positions :: "'d dataframe \<Rightarrow> (nat \<times> nat) list" where
  "cell_positions df = List.product [0..<n_year_cols df] [0..<n_rows df]"


text \<open>The record that a numeric cell stands for: its row's department, its column's header, its number.\<close>

definition record_of_cell :: "'d dataframe \<Rightarrow> string list \<Rightarrow> nat \<times> nat \<Rightarrow> 'd budget_record option" where
  "record_of_cell df year_cols p =
     (case to_numeric (cell_at df (fst p) (snd p)) of
        None \<Rightarrow> None
      | Some x \<Rightarrow> Some \<lparr>Department = first_values df ! snd p,
                        Year = year_cols ! fst p, Budget = x\<rparr>)"

text \<open>A non-empty string of decimal digits, and the numeral of a natural number as \<open>str\<close> prints it.\<close>

definition all_digits :: "string \<Rightarrow> bool" where
  "all_digits s \<longleftrightarrow> s \<noteq> [] \<and> list_all is_digit s"

definition plain_year :: "string \<Rightarrow> bool" where
  "plain_year s \<longleftrightarrow> s = nat_digits (digits_val s)"

text \<open>The number that a digit string denotes.\<close>

definition year_number :: "string \<Rightarrow> int" where
  "year_number c = int (digits_val c)"

text \<open>The float that \<^verbatim>\<open>astype(float)\<close> makes of a cell that is not text.\<close>

fun cell_float :: "cell \<Rightarrow> pyfloat" where
  "cell_float (Num x) = Fin x"
| "cell_float Missing = NaN"
| "cell_float (FloatText s x) = Fin x"
| "cell_float (Text s) = NaN"

text \<open>A cell whose text neither coercion reads.\<close>

fun is_text :: "cell \<Rightarrow> bool" where
  "is_text (Text s) = True"
| "is_text c = False"

text \<open>The total budget of all records of one Year label.\<close>

definition year_total :: "'d budget_record list \<Rightarrow> string \<Rightarrow> real" where
  "year_total recs y = sum_list (map Budget (filter (\<lambda>r. Year r = y) recs))"

section \<open>Example tables\<close>

text \<open>The two-department table of the specification's example, and a copy with one non-numeric cell.\<close>

definition frame_AB :: "string dataframe" where
  "frame_AB = \<lparr>first_header = ''Dept'', first_values = [''A'', ''B''],
     other_columns = [(''2014'', [Num 100, Num 50]), (''2015'', [Num 200, Num 150])]\<rparr>"


definition long_AB :: "string budget_record list" where
  "long_AB = [\<lparr>Department = ''A'', Year = ''2014'', Budget = 100\<rparr>,
              \<lparr>Department = ''B'', Year = ''2014'', Budget = 50\<rparr>,
              \<lparr>Department = ''A'', Year = ''2015'', Budget = 200\<rparr>,
              \<lparr>Department = ''B'', Year = ''2015'', Budget = 150\<rparr>]"


text \<open>A table whose year header carries a leading blank, as in a header line written \<^verbatim>\<open>Department, 2014\<close>.\<close>

definition frame_spaced :: "string dataframe" where
  "frame_spaced = \<lparr>first_header = ''Department'', first_values = [''A''],
     other_columns = [('' 2014'', [Num 100])]\<rparr>"

text \<open>The records of two years whose numerals differ in length.\<close>

definition long_9_10 :: "string budget_record list" where
  "long_9_10 = [\<lparr>Department = ''A'', Year = ''9'', Budget = 1\<rparr>,
                \<lparr>Department = ''A'', Year = ''10'', Budget = 2\<rparr>]"

text \<open>A table with the year columns 999 and 1000.\<close>

definition frame_999 :: "string dataframe" where
  "frame_999 = \<lparr>first_header = ''Department'', first_values = [''A''],
     other_columns = [(''999'', [Num 1]), (''1000'', [Num 2])]\<rparr>"

text \<open>A department whose budget starts at 0 and ends at 100.\<close>

definition long_zero :: "string budget_record list" where
  "long_zero = [\<lparr>Department = ''A'', Year = ''2014'', Budget = 0\<rparr>,
                \<lparr>Department = ''A'', Year = ''2015'', Budget = 100\<rparr>]"

text \<open>A table with budgets for 2014 and 2016 and no column for 2015.\<close>

definition frame_gap_year :: "string dataframe" where
  "frame_gap_year = \<lparr>first_header = ''Department'', first_values = [''A''],
     other_columns = [(''2014'', [Num 100]), (''2016'', [Num 300])]\<rparr>"

definition long_gap_year :: "string budget_record list" where
  "long_gap_year = [\<lparr>Department = ''A'', Year = ''2014'', Budget = 100\<rparr>,
                    \<lparr>Department = ''A'', Year = ''2016'', Budget = 300\<rparr>]"


text \<open>A department whose first year column is empty: its first year with a value is 2015.\<close>

definition frame_late :: "string dataframe" where
  "frame_late = \<lparr>first_header = ''Department'', first_values = [''A''],
     other_columns = [(''2014'', [Missing]), (''2015'', [Num 100]), (''2016'', [Num 300])]\<rparr>"

definition long_late :: "string budget_record list" where
  "long_late = [\<lparr>Department = ''A'', Year = ''2015'', Budget = 100\<rparr>,
                \<lparr>Department = ''A'', Year = ''2016'', Budget = 300\<rparr>]"

text \<open>A department with budget 0 in year 9 and 5 in year 10.\<close>

definition long_first_zero :: "string budget_record list" where
  "long_first_zero = [\<lparr>Department = ''A'', Year = ''9'', Budget = 0\<rparr>,
                      \<lparr>Department = ''A'', Year = ''10'', Budget = 5\<rparr>]"

section \<open>Properties of load_data\<close>

lemma filter_neq_absent: "x \<notin> set xs \<Longrightarrow> filter (\<lambda>c. c \<noteq> x) xs = xs"
  by (induction xs) auto

lemma filter_all_members: "filter (\<lambda>c. f c \<in> set (map f cs)) cs = cs"
  by (simp add: filter_id_conv)

lemma load_data_Inr:
  assumes "load_data df0 = Inr (df, long_df, year_cols)"
  shows "df = rename_columns (first_header df0) ''Department'' df0"
    and "''Budget'' \<notin> set (columns df)"
    and "''Department'' \<notin> set (map fst (other_columns df))"
    and "year_cols = map fst (other_columns df)"
    and "long_df = coerce_dropna (concat (map (\<lambda>c. map (\<lambda>dv. (fst dv, fst c, snd dv))
                     (zip (first_values df) (snd c))) (other_columns df)))"
proof -
  let ?df = "rename_columns (first_header df0) ''Department'' df0"
  let ?yc = "filter (\<lambda>c. c \<noteq> ''Department'') (columns ?df)"
  from assms obtain m where m: "melt ?df ?yc = Inr m"
    and res: "df = ?df" "long_df = coerce_dropna m" "year_cols = ?yc"
    by (auto simp: load_data_def Let_def split: sum.splits)
  from m have nb: "''Budget'' \<notin> set (columns ?df)"
    and nd: "''Department'' \<notin> set (map fst (other_columns ?df))"
    by (auto simp: melt_def split: if_splits)
  have hd: "first_header ?df = ''Department''"
    by (simp add: rename_columns_def)
  from nd have yc: "?yc = map fst (other_columns ?df)"
    by (simp add: columns_def hd filter_neq_absent)
  have "filter (\<lambda>c. fst c \<in> set ?yc) (other_columns ?df) = other_columns ?df"
    unfolding yc by (rule filter_all_members)
  with m nb nd have "m = concat (map (\<lambda>c. map (\<lambda>dv. (fst dv, fst c, snd dv))
                     (zip (first_values ?df) (snd c))) (other_columns ?df))"
    by (simp add: melt_def split: if_splits)
  with res nb nd yc show "df = rename_columns (first_header df0) ''Department'' df0"
    and "''Budget'' \<notin> set (columns df)"
    and "''Department'' \<notin> set (map fst (other_columns df))"
    and "year_cols = map fst (other_columns df)"
    and "long_df = coerce_dropna (concat (map (\<lambda>c. map (\<lambda>dv. (fst dv, fst c, snd dv))
                     (zip (first_values df) (snd c))) (other_columns df)))"
    by simp_all
qed

lemma rename_distinct:
  assumes "distinct (columns df0)"
  shows "rename_columns (first_header df0) new df0 = df0\<lparr>first_header := new\<rparr>"
proof -
  from assms have "\<forall>c\<in>set (other_columns df0). fst c \<noteq> first_header df0"
    by (force simp: columns_def)
  then have "map (\<lambda>c. (if fst c = first_header df0 then new else fst c, snd c)) (other_columns df0)
             = other_columns df0"
    by (simp add: map_idI)
  then show ?thesis
    by (simp add: rename_columns_def)
qed

lemma zip_as_nth:
  assumes "length vs = length fv"
  shows "zip fv vs = map (\<lambda>i. (fv ! i, vs ! i)) [0..<length fv]"
  using assms by (intro nth_equalityI) auto

lemma map_upt_eqI_aux:
  assumes "\<And>j. j < length xs \<Longrightarrow> f (xs ! j) = g j"
  shows "map f xs = map g [0..<length xs]"
  using assms by (intro nth_equalityI) auto

lemma melt_positions:
  assumes "\<forall>c\<in>set cols. length (snd c) = length fv"
  shows "concat (map (\<lambda>c. map (\<lambda>dv. (fst dv, fst c, snd dv)) (zip fv (snd c))) cols)
         = map (\<lambda>p. (fv ! snd p, fst (cols ! fst p), snd (cols ! fst p) ! snd p))
             (List.product [0..<length cols] [0..<length fv])"
proof -
  have "map (\<lambda>c. map (\<lambda>dv. (fst dv, fst c, snd dv)) (zip fv (snd c))) cols
        = map (\<lambda>j. map (\<lambda>i. (fv ! i, fst (cols ! j), snd (cols ! j) ! i)) [0..<length fv])
            [0..<length cols]"
  proof (rule map_upt_eqI_aux)
    fix j assume j: "j < length cols"
    with assms have "length (snd (cols ! j)) = length fv" by simp
    then show "map (\<lambda>dv. (fst dv, fst (cols ! j), snd dv)) (zip fv (snd (cols ! j)))
        = map (\<lambda>i. (fv ! i, fst (cols ! j), snd (cols ! j) ! i)) [0..<length fv]"
      by (simp add: zip_as_nth o_def)
  qed
  then show ?thesis
    by (simp add: product_concat_map map_concat o_def)
qed

lemma rectangular_rename: "rectangular (rename_columns old new df) = rectangular df"
  by (simp add: rectangular_def rename_columns_def list_all_iff)

lemma map_filter_cong_aux:
  assumes "\<And>x. x \<in> set xs \<Longrightarrow> f x = g x"
  shows "List.map_filter f xs = List.map_filter g xs"
  using assms by (induction xs) (auto split: option.splits)

lemma map_filter_after_map: "List.map_filter f (map g xs) = List.map_filter (\<lambda>x. f (g x)) xs"
  by (induction xs) (auto simp: map_filter_simps split: option.splits)

lemma long_df_positions:
  assumes "load_data df0 = Inr (df, long_df, year_cols)" and "rectangular df0"
  shows "long_df = List.map_filter (record_of_cell df0 year_cols) (cell_positions df0)"
proof -
  note df = load_data_Inr(1) [OF assms(1)]
  have rect: "\<forall>c\<in>set (other_columns df). length (snd c) = length (first_values df)"
    using assms(2) rectangular_rename [of "first_header df0" "''Department''" df0]
    by (simp add: df rectangular_def list_all_iff)
  have n: "length (other_columns df) = length (other_columns df0)"
      "first_values df = first_values df0"
    by (simp_all add: df rename_columns_def)
  have "List.map_filter (\<lambda>p. case to_numeric (snd (other_columns df ! fst p) ! snd p) of
              None \<Rightarrow> None
            | Some x \<Rightarrow> Some \<lparr>Department = first_values df ! snd p,
                         Year = fst (other_columns df ! fst p), Budget = x\<rparr>) (cell_positions df0)
        = List.map_filter (record_of_cell df0 year_cols) (cell_positions df0)"
  proof (rule map_filter_cong_aux)
    fix p assume "p \<in> set (cell_positions df0)"
    then have j: "fst p < length (other_columns df0)"
      by (auto simp: cell_positions_def n_year_cols_def)
    then have "snd (other_columns df ! fst p) = snd (other_columns df0 ! fst p)"
      by (simp add: df rename_columns_def)
    moreover from j have "fst (other_columns df ! fst p) = year_cols ! fst p"
      by (simp add: load_data_Inr(4) [OF assms(1)] n)
    ultimately show "(case to_numeric (snd (other_columns df ! fst p) ! snd p) of
              None \<Rightarrow> None
            | Some x \<Rightarrow> Some \<lparr>Department = first_values df ! snd p,
                         Year = fst (other_columns df ! fst p), Budget = x\<rparr>)
          = record_of_cell df0 year_cols p"
      by (simp add: record_of_cell_def cell_at_def n split: option.splits)
  qed
  moreover have "long_df = List.map_filter (\<lambda>p. case to_numeric (snd (other_columns df ! fst p) ! snd p) of
              None \<Rightarrow> None
            | Some x \<Rightarrow> Some \<lparr>Department = first_values df ! snd p,
                         Year = fst (other_columns df ! fst p), Budget = x\<rparr>)
            (List.product [0..<length (other_columns df)] [0..<length (first_values df)])"
    unfolding load_data_Inr(5) [OF assms(1)] melt_positions [OF rect] coerce_dropna_def
      map_filter_after_map
    by (rule map_filter_cong_aux) (simp split: option.splits)
  ultimately show ?thesis
    by (simp add: cell_positions_def n_rows_def n_year_cols_def n)
qed




lemma set_cell_positions:
  "p \<in> set (cell_positions df) \<longleftrightarrow> fst p < n_year_cols df \<and> snd p < n_rows df"
  by (cases p) (simp add: cell_positions_def)

lemma set_map_filter: "set (List.map_filter f xs) = {y. \<exists>x\<in>set xs. f x = Some y}"
  by (induction xs) (auto split: option.splits)


lemma record_of_cell_key:
  "record_of_cell df yc p = Some r \<Longrightarrow> Department r = first_values df ! snd p \<and> Year r = yc ! fst p"
  by (auto simp: record_of_cell_def split: option.splits)


lemma filter_eq_singleton: "distinct xs \<Longrightarrow> q \<in> set xs \<Longrightarrow> filter ((=) q) xs = [q]"
  by (induction xs) (auto simp: filter_empty_conv)

lemma load_data_keeps_frame_aux:
  assumes "load_data df0 = Inr (df, long_df, year_cols)" and "distinct (columns df0)"
  shows "other_columns df = other_columns df0"
  using load_data_Inr(1) [OF assms(1)] rename_distinct [OF assms(2), of "''Department''"]
  by simp

text \<open>
  Claim C10. The wide frame returned by \<open>load_data\<close> is the parsed frame with the header
  of its first column replaced by Department, whatever that header was: the department
  values, every other header and every cell are those of the input. (The parser's
  headers are distinct; \<open>load_data\<close> returns when no clash of column names makes the
  melt fail.)
\<close>

theorem load_data_keeps_frame:
  assumes "load_data df0 = Inr (df, long_df, year_cols)" and "distinct (columns df0)"
  shows "df = df0\<lparr>first_header := ''Department''\<rparr>
         \<and> first_header df = ''Department''
         \<and> first_values df = first_values df0
         \<and> other_columns df = other_columns df0
         \<and> tl (columns df) = tl (columns df0)"
  using load_data_Inr(1) [OF assms(1)] rename_distinct [OF assms(2), of "''Department''"]
  by (simp add: columns_def)


lemma load_frame_AB:
  "load_data frame_AB = Inr (frame_AB\<lparr>first_header := ''Department''\<rparr>, long_AB, [''2014'', ''2015''])"
  by (simp add: load_data_def frame_AB_def long_AB_def rename_columns_def columns_def melt_def
        coerce_dropna_def)



theorem load_data_keeps_frame_witness:
  "load_data frame_AB = Inr (frame_AB\<lparr>first_header := ''Department''\<rparr>, long_AB, [''2014'', ''2015''])
   \<and> distinct (columns frame_AB)
   \<and> other_columns (frame_AB\<lparr>first_header := ''Department''\<rparr>) = other_columns frame_AB"
proof -
  have d: "distinct (columns frame_AB)"
    by (simp add: frame_AB_def columns_def)
  from load_data_keeps_frame [OF load_frame_AB d] load_frame_AB d show ?thesis
    by simp
qed


section \<open>Properties of the string conversions\<close>

lemma digit_char_simps:
  "digit_char 0 = CHR ''0''" "digit_char 1 = CHR ''1''" "digit_char 2 = CHR ''2''"
  "digit_char 3 = CHR ''3''" "digit_char 4 = CHR ''4''" "digit_char 5 = CHR ''5''"
  "digit_char 6 = CHR ''6''" "digit_char 7 = CHR ''7''" "digit_char 8 = CHR ''8''"
  "digit_char 9 = CHR ''9''" "digit_char (Suc 0) = CHR ''1''"
  by (simp_all add: digit_char_def char_of_eq_iff)

lemma nat_digits_small: "nat_digits 0 = ''0''" "nat_digits (Suc 0) = ''1''"
  by (simp_all add: nat_digits.simps [of 0] nat_digits.simps [of "Suc 0"] digit_char_simps)

lemmas nat_digits_numeral = nat_digits.simps [of "numeral k" for k]

lemmas py_str_eval = py_str_def nat_digits_numeral nat_digits_small digit_char_simps

lemma is_digit_facts:
  assumes "is_digit c"
  shows "\<not> py_isspace c" "c \<noteq> CHR ''_''" "c \<noteq> CHR ''-''" "c \<noteq> CHR ''+''"
  using assms by (auto simp: is_digit_def py_isspace_def Let_def)

lemma no_double_underscore: "CHR ''_'' \<notin> set s \<Longrightarrow> \<not> double_underscore s"
  by (induction s rule: double_underscore.induct) auto

lemma py_int_all_digits:
  assumes "all_digits s"
  shows "py_int s = Inr (int (digits_val s))"
proof -
  from assms obtain c r where s: "s = c # r" and c: "is_digit c" and r: "list_all is_digit r"
    by (cases s) (auto simp: all_digits_def)
  have all: "\<forall>x\<in>set s. is_digit x"
    using c r by (auto simp: s list_all_iff)
  have t: "dropWhile py_isspace s = s"
    using is_digit_facts(1) [OF c] by (simp add: s)
  have body: "takeWhile (\<lambda>c. is_digit c \<or> c = CHR ''_'') s = s"
    using all by (simp add: takeWhile_eq_all_conv)
  have rest: "dropWhile (\<lambda>c. is_digit c \<or> c = CHR ''_'') s = []"
    using all by (simp add: dropWhile_eq_Nil_conv)
  have nu: "CHR ''_'' \<notin> set s"
    using all is_digit_facts(2) by auto
  have l: "last s \<noteq> CHR ''_''"
    using nu last_in_set [of s] by (auto simp: s)
  have f: "filter is_digit s = s"
    using all by (simp add: filter_id_conv)
  have h: "hd s = c" by (simp add: s)
  show ?thesis
    unfolding py_int_def t Let_def h
    using is_digit_facts [OF c] l no_double_underscore [OF nu]
    by (simp add: body rest f) (simp add: s)
qed

lemma digits_val_snoc: "digits_val (s @ [c]) = 10 * digits_val s + digit_val c"
  by (simp add: digits_val_def)

lemma digit_char_facts:
  assumes "d < 10"
  shows "is_digit (digit_char d)" "digit_val (digit_char d) = d"
  using assms by (simp_all add: is_digit_def digit_val_def digit_char_def Let_def)

lemma nat_digits_props:
  "nat_digits n \<noteq> [] \<and> list_all is_digit (nat_digits n) \<and> digits_val (nat_digits n) = n"
proof (induction n rule: nat_digits.induct)
  case (1 n)
  show ?case
  proof (cases "n < 10")
    case True
    then show ?thesis
      by (simp add: nat_digits.simps [of n] digit_char_facts digits_val_def)
  next
    case False
    with 1 have IH: "list_all is_digit (nat_digits (n div 10))"
      "digits_val (nat_digits (n div 10)) = n div 10" by simp_all
    have "n mod 10 < 10" by simp
    with False IH show ?thesis
      by (simp add: nat_digits.simps [of n] digits_val_snoc digit_char_facts)
  qed
qed

lemma all_digits_nat_digits: "all_digits (nat_digits n)"
  by (simp add: all_digits_def nat_digits_props)

lemma digits_val_nat_digits: "digits_val (nat_digits n) = n"
  by (simp add: nat_digits_props)

lemma plain_year_all_digits: "plain_year s \<Longrightarrow> all_digits s"
  unfolding plain_year_def using all_digits_nat_digits [of "digits_val s"] by simp

lemma py_int_nat_digits: "py_int (nat_digits n) = Inr (int n)"
  by (simp add: py_int_all_digits all_digits_nat_digits digits_val_nat_digits)

lemma py_int_py_str: "py_int (py_str y) = Inr y"
proof (cases "y < 0")
  case False
  then show ?thesis by (simp add: py_str_def py_int_nat_digits)
next
  case True
  let ?d = "nat_digits (nat (- y))"
  have m: "\<not> py_isspace CHR ''-''" "\<not> is_digit CHR ''-''"
    by (simp_all add: py_isspace_def is_digit_def)
  have "py_int ?d = Inr (int (nat (- y)))"
    by (rule py_int_nat_digits)
  moreover have "dropWhile py_isspace ?d = ?d"
    using nat_digits_props [of "nat (- y)"] is_digit_facts(1)
    by (cases ?d) (auto simp: list_all_iff)
  moreover have "hd ?d \<noteq> CHR ''-''" "hd ?d \<noteq> CHR ''+''" "?d \<noteq> []"
    using nat_digits_props [of "nat (- y)"] is_digit_facts(3,4)
    by (cases ?d; auto simp: list_all_iff)+
  ultimately show ?thesis
    using True m by (simp add: py_str_def py_int_def Let_def split: if_splits)
qed

lemma py_str_inj: "py_str a = py_str b \<longleftrightarrow> a = b"
  by (metis py_int_py_str sum.inject(2))

lemma foldl_digits_acc:
  "foldl (\<lambda>a c. 10 * a + digit_val c) a s = a * 10 ^ length s + foldl (\<lambda>a c. 10 * a + digit_val c) 0 s"
proof (induction s arbitrary: a)
  case Nil
  then show ?case by simp
next
  case (Cons c s)
  let ?f = "\<lambda>a c. 10 * a + digit_val c"
  have "foldl ?f a (c # s) = foldl ?f (10 * a + digit_val c) s"
    by simp
  also have "\<dots> = (10 * a + digit_val c) * 10 ^ length s + foldl ?f 0 s"
    by (rule Cons.IH)
  also have "\<dots> = a * 10 ^ length (c # s) + (digit_val c * 10 ^ length s + foldl ?f 0 s)"
    by (simp add: algebra_simps)
  also have "digit_val c * 10 ^ length s + foldl ?f 0 s = foldl ?f (digit_val c) s"
    by (rule Cons.IH [symmetric])
  also have "foldl ?f (digit_val c) s = foldl ?f 0 (c # s)"
    by simp
  finally show ?case .
qed

lemma digits_val_Cons: "digits_val (c # s) = digit_val c * 10 ^ length s + digits_val s"
  using foldl_digits_acc [of "digit_val c" s] by (simp add: digits_val_def)

lemma digit_val_less: "is_digit c \<Longrightarrow> digit_val c < 10"
  by (auto simp: is_digit_def digit_val_def Let_def)

lemma digits_val_bound: "list_all is_digit s \<Longrightarrow> digits_val s < 10 ^ length s"
proof (induction s)
  case Nil
  then show ?case by (simp add: digits_val_def)
next
  case (Cons c s)
  then have c: "digit_val c \<le> 9" and s: "digits_val s < 10 ^ length s"
    using digit_val_less [of c] by auto
  have "digit_val c * 10 ^ length s \<le> 9 * 10 ^ length s"
    using c by (rule mult_le_mono1)
  with s have "digit_val c * 10 ^ length s + digits_val s < 9 * 10 ^ length s + 10 ^ length s"
    by linarith
  then show ?case by (simp add: digits_val_Cons)
qed

lemma digit_order:
  assumes "is_digit c" "is_digit d"
  shows "c < d \<longleftrightarrow> digit_val c < digit_val d" and "c = d \<longleftrightarrow> digit_val c = digit_val d"
proof -
  from assms have c: "48 \<le> (of_char c :: nat)" and d: "48 \<le> (of_char d :: nat)"
    by (simp_all add: is_digit_def Let_def)
  have "c < d \<longleftrightarrow> (of_char c :: nat) < of_char d"
    by (simp only: less_char_def)
  also from c d have "\<dots> \<longleftrightarrow> digit_val c < digit_val d"
    unfolding digit_val_def by linarith
  finally show "c < d \<longleftrightarrow> digit_val c < digit_val d" .
  have "c = d \<longleftrightarrow> (of_char c :: nat) = of_char d"
    by (simp only: of_char_eq_iff)
  also from c d have "\<dots> \<longleftrightarrow> digit_val c = digit_val d"
    unfolding digit_val_def by linarith
  finally show "c = d \<longleftrightarrow> digit_val c = digit_val d" .
qed

lemma digits_order:
  assumes "length s = length t" "list_all is_digit s" "list_all is_digit t"
  shows "(s < t \<longleftrightarrow> digits_val s < digits_val t) \<and> (s = t \<longleftrightarrow> digits_val s = digits_val t)"
  using assms
proof (induction s t rule: list_induct2)
  case Nil
  then show ?case by simp
next
  case (Cons c s d t)
  then have IH: "s < t \<longleftrightarrow> digits_val s < digits_val t" "s = t \<longleftrightarrow> digits_val s = digits_val t"
    and cd: "is_digit c" "is_digit d"
    and bs: "digits_val s < 10 ^ length s" and bt: "digits_val t < 10 ^ length s"
    using digits_val_bound [of s] digits_val_bound [of t] by auto
  let ?p = "(10::nat) ^ length s"
  have lt: "a * ?p + x < b * ?p + y" if "a < b" "x < ?p" for a b x y :: nat
  proof -
    from that(1) have "(a + 1) * ?p \<le> b * ?p"
      by (intro mult_le_mono1) simp
    with that(2) show ?thesis by (simp add: algebra_simps)
  qed
  consider "digit_val c < digit_val d" | "digit_val d < digit_val c" | "digit_val c = digit_val d"
    by linarith
  then show ?case
  proof cases
    case 1
    with lt [OF 1 bs, of "digits_val t"] digit_order [OF cd] show ?thesis
      using Cons.hyps by (auto simp: digits_val_Cons)
  next
    case 2
    with lt [OF 2 bt, of "digits_val s"] digit_order [OF cd] digit_order [OF cd(2,1)] show ?thesis
      using Cons.hyps by (auto simp: digits_val_Cons)
  next
    case 3
    with digit_order [OF cd] IH show ?thesis
      using Cons.hyps by (auto simp: digits_val_Cons)
  qed
qed

lemma digits_order_le:
  assumes "length s = length t" "list_all is_digit s" "list_all is_digit t"
  shows "s \<le> t \<longleftrightarrow> digits_val s \<le> digits_val t"
  using digits_order [OF assms] by (auto simp: le_less)

section \<open>The year-range filter\<close>

lemma set_selected_years:
  "l \<in> set (selected_years (a, b)) \<longleftrightarrow> (\<exists>y. a \<le> y \<and> y \<le> b \<and> l = py_str y)"
  by (auto simp: selected_years_def)

lemma selected_years_py_str: "py_str y \<in> set (selected_years (a, b)) \<longleftrightarrow> a \<le> y \<and> y \<le> b"
  by (auto simp: set_selected_years py_str_inj)

lemma selected_years_mono: "set (selected_years (a, b)) \<subseteq> set (selected_years (a - 1, b + 1))"
proof
  fix l assume "l \<in> set (selected_years (a, b))"
  then obtain y where "a \<le> y" "y \<le> b" "l = py_str y"
    by (auto simp: set_selected_years)
  then have "a - 1 \<le> y \<and> y \<le> b + 1 \<and> l = py_str y" by simp
  then show "l \<in> set (selected_years (a - 1, b + 1))"
    unfolding set_selected_years by (rule exI)
qed

text \<open>
  Claim C2, as the code has it. The filter with bounds \<open>(a, b)\<close> keeps exactly the
  records whose Year label is \<open>str(y)\<close> for an integer \<open>y\<close> with \<open>a \<le> y \<le> b\<close>; for a
  label that is such a numeral this means: exactly when its number lies in the
  inclusive interval. Filtering twice with the same bounds equals filtering once, the
  result for \<open>(a, b)\<close> is contained in (and recovered from) the result for
  \<open>(a - 1, b + 1)\<close>, and when no label matches the result is the empty list, not an
  error.
\<close>

theorem filtered_long_range:
  "(\<forall>r. r \<in> set (filtered_long recs (a, b))
          \<longleftrightarrow> r \<in> set recs \<and> (\<exists>y. a \<le> y \<and> y \<le> b \<and> Year r = py_str y))
   \<and> (\<forall>r y. Year r = py_str y
          \<longrightarrow> (r \<in> set (filtered_long recs (a, b)) \<longleftrightarrow> r \<in> set recs \<and> a \<le> y \<and> y \<le> b))
   \<and> filtered_long (filtered_long recs (a, b)) (a, b) = filtered_long recs (a, b)
   \<and> set (filtered_long recs (a, b)) \<subseteq> set (filtered_long recs (a - 1, b + 1))
   \<and> filtered_long (filtered_long recs (a - 1, b + 1)) (a, b) = filtered_long recs (a, b)
   \<and> ((\<forall>r\<in>set recs. \<forall>y. a \<le> y \<and> y \<le> b \<longrightarrow> Year r \<noteq> py_str y)
        \<longrightarrow> filtered_long recs (a, b) = [])"
proof -
  have A: "r \<in> set (filtered_long recs (a, b))
          \<longleftrightarrow> r \<in> set recs \<and> (\<exists>y. a \<le> y \<and> y \<le> b \<and> Year r = py_str y)" for r
    by (auto simp: filtered_long_def set_selected_years)
  have B: "r \<in> set (filtered_long recs (a, b)) \<longleftrightarrow> r \<in> set recs \<and> a \<le> y \<and> y \<le> b"
    if "Year r = py_str y" for r y
    using that by (auto simp: filtered_long_def selected_years_py_str)
  have C: "filtered_long (filtered_long recs (a, b)) (a, b) = filtered_long recs (a, b)"
    by (simp add: filtered_long_def)
  have D: "set (filtered_long recs (a, b)) \<subseteq> set (filtered_long recs (a - 1, b + 1))"
    using selected_years_mono [of a b] by (auto simp: filtered_long_def)
  have E: "filtered_long (filtered_long recs (a - 1, b + 1)) (a, b) = filtered_long recs (a, b)"
    using selected_years_mono [of a b]
    by (auto simp: filtered_long_def intro: filter_cong)
  have F: "filtered_long recs (a, b) = []"
    if "\<forall>r\<in>set recs. \<forall>y. a \<le> y \<and> y \<le> b \<longrightarrow> Year r \<noteq> py_str y"
    using that by (auto simp: filtered_long_def filter_empty_conv set_selected_years)
  from A B C D E F show ?thesis by blast
qed

lemma py_str_examples:
  "py_str 2014 = ''2014''" "py_str 2015 = ''2015''" "py_str 2016 = ''2016''" "py_str 2017 = ''2017''"
  by (simp_all add: py_str_eval)

theorem filtered_long_range_witness:
  "filtered_long long_AB (2016, 2017) = []
   \<and> filtered_long long_AB (2015, 2015)
       = [\<lparr>Department = ''A'', Year = ''2015'', Budget = 200\<rparr>,
          \<lparr>Department = ''B'', Year = ''2015'', Budget = 150\<rparr>]
   \<and> filtered_long (filtered_long long_AB (2015, 2015)) (2015, 2015)
       = filtered_long long_AB (2015, 2015)
   \<and> \<lparr>Department = ''A'', Year = ''2015'', Budget = 200\<rparr> \<in> set (filtered_long long_AB (2015, 2015))
   \<and> \<lparr>Department = ''A'', Year = ''2014'', Budget = 100\<rparr> \<notin> set (filtered_long long_AB (2015, 2015))"
proof -
  have h: "\<forall>r\<in>set long_AB. \<forall>y. 2016 \<le> y \<and> y \<le> 2017 \<longrightarrow> Year r \<noteq> py_str y"
  proof (intro ballI allI impI)
    fix r and y :: int
    assume r: "r \<in> set long_AB" and "2016 \<le> y \<and> y \<le> 2017"
    then have "y = 2016 \<or> y = 2017" by arith
    with r show "Year r \<noteq> py_str y"
      by (auto simp: long_AB_def py_str_examples)
  qed
  have y: "Year \<lparr>Department = ''A'', Year = ''2015'', Budget = 200\<rparr> = py_str 2015"
      "Year \<lparr>Department = ''A'', Year = ''2014'', Budget = 100\<rparr> = py_str 2014"
    by (simp_all add: py_str_examples)
  have e: "filtered_long long_AB (2015, 2015)
       = [\<lparr>Department = ''A'', Year = ''2015'', Budget = 200\<rparr>,
          \<lparr>Department = ''B'', Year = ''2015'', Budget = 150\<rparr>]"
    by (simp add: filtered_long_def selected_years_def py_str_examples long_AB_def)
  note T = filtered_long_range [of long_AB 2015 2015]
  note T2 = T [THEN conjunct2, THEN conjunct1, rule_format]
  from filtered_long_range [of long_AB 2016 2017, THEN conjunct2, THEN conjunct2, THEN conjunct2,
      THEN conjunct2, THEN conjunct2, THEN mp, OF h]
  have "filtered_long long_AB (2016, 2017) = []" .
  moreover from T [THEN conjunct2, THEN conjunct2, THEN conjunct1]
  have "filtered_long (filtered_long long_AB (2015, 2015)) (2015, 2015)
       = filtered_long long_AB (2015, 2015)" .
  moreover from T2 [OF y(1)]
  have "\<lparr>Department = ''A'', Year = ''2015'', Budget = 200\<rparr> \<in> set (filtered_long long_AB (2015, 2015))"
    by (simp add: long_AB_def)
  moreover from T2 [OF y(2)]
  have "\<lparr>Department = ''A'', Year = ''2014'', Budget = 100\<rparr> \<notin> set (filtered_long long_AB (2015, 2015))"
    by simp
  ultimately show ?thesis using e by simp
qed

text \<open>
  The filter compares labels with the numerals \<open>str(y)\<close>; it does not read the label as a
  number. The header \<^verbatim>\<open> 2014\<close> is accepted by \<^verbatim>\<open>int\<close> (the slider offers 2014 to 2014),
  yet its record is dropped for the range 2014 to 2014.
\<close>

theorem filtered_long_label_counterexample:
  "load_data frame_spaced
     = Inr (frame_spaced, [\<lparr>Department = ''A'', Year = '' 2014'', Budget = 100\<rparr>], ['' 2014''])
   \<and> year_bounds ['' 2014''] = Inr (2014, 2014)
   \<and> py_int (Year \<lparr>Department = ''A'', Year = '' 2014'', Budget = 100\<rparr>) = Inr 2014
   \<and> filtered_long [\<lparr>Department = ''A'', Year = '' 2014'', Budget = 100\<rparr>] (2014, 2014) = []"
proof -
  have i: "py_int '' 2014'' = Inr 2014"
    by (simp add: py_int_def py_isspace_def is_digit_def digits_val_def digit_val_def Let_def)
  have l: "load_data frame_spaced
     = Inr (frame_spaced, [\<lparr>Department = ''A'', Year = '' 2014'', Budget = 100\<rparr>], ['' 2014''])"
    by (simp add: load_data_def frame_spaced_def rename_columns_def columns_def melt_def
        coerce_dropna_def)
  have b: "year_bounds ['' 2014''] = Inr (2014, 2014)"
    by (simp add: year_bounds_def py_min_def py_max_def and_then_def i)
  have f: "filtered_long [\<lparr>Department = ''A'', Year = '' 2014'', Budget = 100\<rparr>] (2014, 2014) = []"
    by (simp add: filtered_long_def selected_years_def py_str_examples)
  from i l b f show ?thesis by simp
qed

section \<open>Total by year\<close>

lemma groupby_sum_keys: "map fst (groupby_sum key recs) = sort (remdups (map key recs))"
  by (simp add: groupby_sum_def o_def)

lemma total_by_year_eq: "total_by_year recs = groupby_sum Year recs"
  unfolding total_by_year_def
  by (rule sort_key_id_if_sorted) (simp add: groupby_sum_keys)

lemma total_by_year_keys:
  "map fst (total_by_year recs) = sorted_list_of_set (Year ` set recs)"
  by (simp add: total_by_year_eq groupby_sum_keys sorted_list_of_set_sort_remdups [symmetric])

lemma sorted_wrt_map_mono:
  assumes "sorted_wrt (<) xs" and "\<And>x y. x \<in> set xs \<Longrightarrow> y \<in> set xs \<Longrightarrow> x < y \<Longrightarrow> f x < f y"
  shows "sorted_wrt (<) (map f xs)"
  using assms by (induction xs) auto

text \<open>
  Claim C3, as the code has it. Total-by-year has one pair for each Year label that
  occurs, holding the sum of the budgets of all records with that label, and the pairs
  are in strictly ascending order of the label, compared as strings. When the labels
  are digit strings of one length (as four-digit years are) this is the ascending
  order of the year numbers. For departments A with 100, 200 and B with 50, 150 in
  2014, 2015 the result is 150 for 2014 and 350 for 2015.
\<close>

theorem total_by_year_sums:
  "total_by_year recs
     = map (\<lambda>y. (y, sum_list (map Budget (filter (\<lambda>r. Year r = y) recs))))
         (sorted_list_of_set (Year ` set recs))
   \<and> sorted_wrt (<) (map fst (total_by_year recs))
   \<and> ((\<forall>r\<in>set recs. all_digits (Year r) \<and> length (Year r) = k)
        \<longrightarrow> map (\<lambda>t. py_int (fst t)) (total_by_year recs)
              = map (\<lambda>t. Inr (int (digits_val (fst t)))) (total_by_year recs)
            \<and> sorted_wrt (<) (map (\<lambda>t. int (digits_val (fst t))) (total_by_year recs)))
   \<and> total_by_year (filtered_long long_AB (2014, 2015)) = [(''2014'', 150), (''2015'', 350)]"
proof -
  have A: "total_by_year recs
     = map (\<lambda>y. (y, sum_list (map Budget (filter (\<lambda>r. Year r = y) recs))))
         (sorted_list_of_set (Year ` set recs))"
    by (simp add: total_by_year_eq groupby_sum_def sorted_list_of_set_sort_remdups [symmetric])
  have B: "sorted_wrt (<) (map fst (total_by_year recs))"
    by (simp add: total_by_year_keys)
  have C: "map (\<lambda>t. py_int (fst t)) (total_by_year recs)
              = map (\<lambda>t. Inr (int (digits_val (fst t)))) (total_by_year recs)
            \<and> sorted_wrt (<) (map (\<lambda>t. int (digits_val (fst t))) (total_by_year recs))"
    if h: "\<forall>r\<in>set recs. all_digits (Year r) \<and> length (Year r) = k"
  proof -
    have keys: "all_digits y \<and> length y = k" if "y \<in> set (map fst (total_by_year recs))" for y
      using that h by (auto simp: total_by_year_keys)
    have "py_int (fst t) = Inr (int (digits_val (fst t)))" if "t \<in> set (total_by_year recs)" for t
      using keys [of "fst t"] that by (simp add: py_int_all_digits)
    then have 1: "map (\<lambda>t. py_int (fst t)) (total_by_year recs)
              = map (\<lambda>t. Inr (int (digits_val (fst t)))) (total_by_year recs)"
      by simp
    have "sorted_wrt (<) (map (\<lambda>y. int (digits_val y)) (map fst (total_by_year recs)))"
    proof (rule sorted_wrt_map_mono [OF B])
      fix x y assume "x \<in> set (map fst (total_by_year recs))" "y \<in> set (map fst (total_by_year recs))"
        and "x < y"
      with keys [of x] keys [of y] digits_order [of x y]
      show "int (digits_val x) < int (digits_val y)"
        by (simp add: all_digits_def)
    qed
    then have 2: "sorted_wrt (<) (map (\<lambda>t. int (digits_val (fst t))) (total_by_year recs))"
      by (simp add: o_def)
    from 1 2 show ?thesis ..
  qed
  have D: "total_by_year (filtered_long long_AB (2014, 2015)) = [(''2014'', 150), (''2015'', 350)]"
    by (simp add: filtered_long_def selected_years_def upto.simps py_str_eval long_AB_def
          total_by_year_def groupby_sum_def)
  from A B C D show ?thesis by blast
qed

theorem total_by_year_sums_witness:
  "list_all (\<lambda>r. all_digits (Year r) \<and> length (Year r) = 4) long_AB
   \<and> total_by_year long_AB = [(''2014'', 150), (''2015'', 350)]
   \<and> sorted_wrt (<) (map (\<lambda>t. int (digits_val (fst t))) (total_by_year long_AB))
   \<and> map (\<lambda>t. int (digits_val (fst t))) (total_by_year long_AB) = [2014, 2015]"
proof -
  have h: "\<forall>r\<in>set long_AB. all_digits (Year r) \<and> length (Year r) = 4"
    by (simp add: long_AB_def all_digits_def is_digit_def)
  have t: "total_by_year long_AB = [(''2014'', 150), (''2015'', 350)]"
    by (simp add: long_AB_def total_by_year_def groupby_sum_def)
  have v: "map (\<lambda>t. int (digits_val (fst t))) [(''2014'', 150::real), (''2015'', 350)] = [2014, 2015]"
    by (simp add: digits_val_def digit_val_def)
  from total_by_year_sums [of long_AB 4, THEN conjunct2, THEN conjunct2, THEN conjunct1, THEN mp, OF h]
  have "sorted_wrt (<) (map (\<lambda>t. int (digits_val (fst t))) (total_by_year long_AB))" ..
  with h t v show ?thesis
    by (simp add: list_all_iff)
qed

text \<open>
  The order is that of the label strings: the total of year 10 comes before the total
  of year 9.
\<close>

theorem total_by_year_order_counterexample:
  "long_9_10 = filtered_long long_9_10 (9, 10)
   \<and> total_by_year long_9_10 = [(''10'', 2), (''9'', 1)]
   \<and> map (\<lambda>t. py_int (fst t)) (total_by_year long_9_10) = [Inr 10, Inr 9]"
proof -
  have f: "long_9_10 = filtered_long long_9_10 (9, 10)"
    by (simp add: filtered_long_def selected_years_def upto.simps py_str_eval long_9_10_def)
  have t: "total_by_year long_9_10 = [(''10'', 2), (''9'', 1)]"
    by (simp add: long_9_10_def total_by_year_def groupby_sum_def)
  have i: "py_int ''10'' = Inr 10" "py_int ''9'' = Inr 9"
    by (simp_all add: py_int_def py_isspace_def is_digit_def digits_val_def digit_val_def Let_def)
  from f t i show ?thesis by simp
qed

section \<open>Year labels\<close>

lemma fold_min_Min: "fold (\<lambda>y m. if y < m then y else m) ys (x::'a::linorder) = Min (set (x # ys))"
proof -
  have "(\<lambda>y m. if y < m then y else m) = (min :: 'a \<Rightarrow> 'a \<Rightarrow> 'a)"
    by (auto simp: fun_eq_iff min_def)
  then show ?thesis by (simp only: Min.set_eq_fold)
qed

lemma fold_max_Max: "fold (\<lambda>y m. if m < y then y else m) ys (x::'a::linorder) = Max (set (x # ys))"
proof -
  have "(\<lambda>y m. if m < y then y else m) = (max :: 'a \<Rightarrow> 'a \<Rightarrow> 'a)"
    by (auto simp: fun_eq_iff max_def)
  then show ?thesis by (simp only: Max.set_eq_fold)
qed

lemma py_min_Min: "xs \<noteq> [] \<Longrightarrow> py_min xs = Inr (Min (set xs))"
  by (cases xs) (simp_all add: py_min_def fold_min_Min)

lemma py_max_Max: "xs \<noteq> [] \<Longrightarrow> py_max xs = Inr (Max (set xs))"
  by (cases xs) (simp_all add: py_max_def fold_max_Max)

lemma Min_image_mono_on:
  fixes f :: "'a::linorder \<Rightarrow> 'b::linorder"
  assumes "finite S" "S \<noteq> {}" and "\<And>x y. x \<in> S \<Longrightarrow> y \<in> S \<Longrightarrow> x \<le> y \<Longrightarrow> f x \<le> f y"
  shows "Min (f ` S) = f (Min S)"
proof (rule Min_eqI)
  show "finite (f ` S)" using assms(1) by simp
  show "f (Min S) \<in> f ` S" using assms(1,2) by simp
  fix y assume "y \<in> f ` S"
  then obtain x where x: "x \<in> S" "y = f x" by auto
  with assms(1,2) have "Min S \<le> x" "Min S \<in> S" by simp_all
  with x assms(3) show "f (Min S) \<le> y" by simp
qed

lemma Max_image_mono_on:
  fixes f :: "'a::linorder \<Rightarrow> 'b::linorder"
  assumes "finite S" "S \<noteq> {}" and "\<And>x y. x \<in> S \<Longrightarrow> y \<in> S \<Longrightarrow> x \<le> y \<Longrightarrow> f x \<le> f y"
  shows "Max (f ` S) = f (Max S)"
proof (rule Max_eqI)
  show "finite (f ` S)" using assms(1) by simp
  show "f (Max S) \<in> f ` S" using assms(1,2) by simp
  fix y assume "y \<in> f ` S"
  then obtain x where x: "x \<in> S" "y = f x" by auto
  with assms(1,2) have "x \<le> Max S" "Max S \<in> S" by simp_all
  with x assms(3) show "y \<le> f (Max S)" by simp
qed

lemma year_number_order:
  assumes "all_digits c" "all_digits d" "length c = length d"
  shows "c \<le> d \<longleftrightarrow> year_number c \<le> year_number d"
  using digits_order_le [of c d] assms by (simp add: all_digits_def year_number_def)

lemma py_int_year_number: "all_digits c \<Longrightarrow> py_int c = Inr (year_number c)"
  by (simp add: py_int_all_digits year_number_def)

lemma plain_year_py_str: "plain_year c \<Longrightarrow> c = py_str (year_number c)"
  by (simp add: plain_year_def py_str_def year_number_def)

lemma long_df_years:
  assumes "load_data df0 = Inr (df, long_df, year_cols)" and "rectangular df0"
  shows "\<forall>r\<in>set long_df. Year r \<in> set year_cols"
proof
  fix r assume "r \<in> set long_df"
  then obtain p where p: "p \<in> set (cell_positions df0)" "record_of_cell df0 year_cols p = Some r"
    by (auto simp: long_df_positions [OF assms] set_map_filter)
  have "length year_cols = n_year_cols df0"
    by (simp add: load_data_Inr(4) [OF assms(1)] load_data_Inr(1) [OF assms(1)]
          rename_columns_def n_year_cols_def)
  with p(1) have "year_cols ! fst p \<in> set year_cols"
    by (simp add: set_cell_positions)
  with record_of_cell_key [OF p(2)] show "Year r \<in> set year_cols" by simp
qed

lemma year_bounds_digits:
  assumes ne: "year_cols \<noteq> []" and dig: "\<forall>c\<in>set year_cols. all_digits c \<and> length c = k"
  shows "year_bounds year_cols
         = Inr (Min (year_number ` set year_cols), Max (year_number ` set year_cols))"
proof -
  let ?S = "set year_cols"
  have fin: "finite ?S" "?S \<noteq> {}" using ne by simp_all
  have mono: "year_number x \<le> year_number y" if "x \<in> ?S" "y \<in> ?S" "x \<le> y" for x y
    using that dig year_number_order [of x y] by simp
  have mn: "Min ?S \<in> ?S" and mx: "Max ?S \<in> ?S" using fin by simp_all
  have "py_int (Min ?S) = Inr (year_number (Min ?S))" "py_int (Max ?S) = Inr (year_number (Max ?S))"
    using mn mx dig by (simp_all add: py_int_year_number)
  moreover have "year_number (Min ?S) = Min (year_number ` ?S)"
    using Min_image_mono_on [OF fin mono] by simp
  moreover have "year_number (Max ?S) = Max (year_number ` ?S)"
    using Max_image_mono_on [OF fin mono] by simp
  ultimately show ?thesis
    by (simp add: year_bounds_def py_min_Min [OF ne] py_max_Max [OF ne] and_then_def)
qed

text \<open>
  Claim C9, as the code has it. The Year field of every record is a string, one of the
  year-column headers; the minimum and maximum year are the smallest and largest header
  in string order, and only these two are converted to integers. When all headers are
  digit strings of one length (as four-digit years are), the string order of headers
  is the order of their numbers, the year bounds are the smallest and largest year
  number, and every record's year number lies between them; when the headers are
  moreover written as \<open>str\<close> prints a number, the range filter keeps exactly the
  records whose year number lies in the inclusive range.
\<close>

theorem year_labels_are_strings:
  assumes "load_data df0 = Inr (df, long_df, year_cols)" and "rectangular df0"
  shows "(\<forall>r\<in>set long_df. Year r \<in> set year_cols)
     \<and> (year_cols \<noteq> []
          \<longrightarrow> py_min year_cols = Inr (Min (set year_cols))
              \<and> py_max year_cols = Inr (Max (set year_cols)))
     \<and> (year_cols \<noteq> [] \<and> (\<forall>c\<in>set year_cols. all_digits c \<and> length c = k)
          \<longrightarrow> year_bounds year_cols
                = Inr (Min (year_number ` set year_cols), Max (year_number ` set year_cols))
              \<and> (\<forall>c\<in>set year_cols. \<forall>d\<in>set year_cols.
                    c \<le> d \<longleftrightarrow> year_number c \<le> year_number d)
              \<and> (\<forall>r\<in>set long_df. py_int (Year r) = Inr (year_number (Year r))
                    \<and> Min (year_number ` set year_cols) \<le> year_number (Year r)
                    \<and> year_number (Year r) \<le> Max (year_number ` set year_cols)))
     \<and> ((\<forall>c\<in>set year_cols. plain_year c)
          \<longrightarrow> (\<forall>r\<in>set long_df. r \<in> set (filtered_long long_df (a, b))
                    \<longleftrightarrow> a \<le> year_number (Year r) \<and> year_number (Year r) \<le> b))"
proof -
  note A = long_df_years [OF assms]
  have B: "py_min year_cols = Inr (Min (set year_cols)) \<and> py_max year_cols = Inr (Max (set year_cols))"
    if "year_cols \<noteq> []"
    using that by (simp add: py_min_Min py_max_Max)
  have C: "year_bounds year_cols
                = Inr (Min (year_number ` set year_cols), Max (year_number ` set year_cols))
              \<and> (\<forall>c\<in>set year_cols. \<forall>d\<in>set year_cols.
                    c \<le> d \<longleftrightarrow> year_number c \<le> year_number d)
              \<and> (\<forall>r\<in>set long_df. py_int (Year r) = Inr (year_number (Year r))
                    \<and> Min (year_number ` set year_cols) \<le> year_number (Year r)
                    \<and> year_number (Year r) \<le> Max (year_number ` set year_cols))"
    if h: "year_cols \<noteq> [] \<and> (\<forall>c\<in>set year_cols. all_digits c \<and> length c = k)"
  proof -
    from h have ne: "year_cols \<noteq> []" and dig: "\<forall>c\<in>set year_cols. all_digits c \<and> length c = k"
      by simp_all
    have 1: "year_bounds year_cols
                = Inr (Min (year_number ` set year_cols), Max (year_number ` set year_cols))"
      by (rule year_bounds_digits [OF ne dig])
    have 2: "\<forall>c\<in>set year_cols. \<forall>d\<in>set year_cols. c \<le> d \<longleftrightarrow> year_number c \<le> year_number d"
      using dig year_number_order by simp
    have 3: "\<forall>r\<in>set long_df. py_int (Year r) = Inr (year_number (Year r))
                    \<and> Min (year_number ` set year_cols) \<le> year_number (Year r)
                    \<and> year_number (Year r) \<le> Max (year_number ` set year_cols)"
    proof
      fix r assume "r \<in> set long_df"
      with A have y: "Year r \<in> set year_cols" by simp
      with dig have "py_int (Year r) = Inr (year_number (Year r))"
        by (simp add: py_int_year_number)
      moreover from y have "Min (year_number ` set year_cols) \<le> year_number (Year r)"
        "year_number (Year r) \<le> Max (year_number ` set year_cols)"
        by simp_all
      ultimately show "py_int (Year r) = Inr (year_number (Year r))
                    \<and> Min (year_number ` set year_cols) \<le> year_number (Year r)
                    \<and> year_number (Year r) \<le> Max (year_number ` set year_cols)"
        by simp
    qed
    from 1 2 3 show ?thesis by simp
  qed
  have D: "\<forall>r\<in>set long_df. r \<in> set (filtered_long long_df (a, b))
                    \<longleftrightarrow> a \<le> year_number (Year r) \<and> year_number (Year r) \<le> b"
    if h: "\<forall>c\<in>set year_cols. plain_year c"
  proof
    fix r assume r: "r \<in> set long_df"
    with A h have "Year r = py_str (year_number (Year r))"
      by (simp add: plain_year_py_str)
    then have "Year r \<in> set (selected_years (a, b))
               \<longleftrightarrow> a \<le> year_number (Year r) \<and> year_number (Year r) \<le> b"
      using selected_years_py_str [of "year_number (Year r)" a b] by simp
    with r show "r \<in> set (filtered_long long_df (a, b))
                    \<longleftrightarrow> a \<le> year_number (Year r) \<and> year_number (Year r) \<le> b"
      by (simp add: filtered_long_def)
  qed
  from A B C D show ?thesis by blast
qed

lemma year_number_examples:
  "year_number ''2014'' = 2014" "year_number ''2015'' = 2015"
  by (simp_all add: year_number_def digits_val_def digit_val_def)

theorem year_labels_are_strings_witness:
  "load_data frame_AB = Inr (frame_AB\<lparr>first_header := ''Department''\<rparr>, long_AB, [''2014'', ''2015''])
   \<and> rectangular frame_AB
   \<and> list_all (\<lambda>c. all_digits c \<and> length c = 4 \<and> plain_year c) [''2014'', ''2015'']
   \<and> py_min [''2014'', ''2015''] = Inr ''2014''
   \<and> year_bounds [''2014'', ''2015''] = Inr (2014, 2015)
   \<and> filtered_long long_AB (2015, 2015) = filter (\<lambda>r. year_number (Year r) = 2015) long_AB"
proof -
  have r: "rectangular frame_AB"
    by (simp add: rectangular_def frame_AB_def)
  have ne: "[''2014'', ''2015''] \<noteq> ([] :: string list)" by simp
  have dig: "\<forall>c\<in>set [''2014'', ''2015'']. all_digits c \<and> length c = 4"
    by (simp add: all_digits_def is_digit_def)
  have pl: "\<forall>c\<in>set [''2014'', ''2015'']. plain_year c"
    by (simp add: plain_year_def digits_val_def digit_val_def py_str_eval)
  note T = year_labels_are_strings [OF load_frame_AB r, of 4 2015 2015]
  from T [THEN conjunct2, THEN conjunct1, THEN mp, OF ne]
  have m: "py_min [''2014'', ''2015''] = Inr ''2014''"
    by simp
  from T [THEN conjunct2, THEN conjunct2, THEN conjunct1, THEN mp, OF conjI, OF ne dig]
  have b: "year_bounds [''2014'', ''2015''] = Inr (2014, 2015)"
    by (simp add: year_number_examples)
  note F = T [THEN conjunct2, THEN conjunct2, THEN conjunct2, THEN mp, OF pl]
  have "r \<in> set (filtered_long long_AB (2015, 2015)) \<longleftrightarrow> year_number (Year r) = 2015"
    if "r \<in> set long_AB" for r
    using F [THEN bspec, OF that] by linarith
  then have f: "filtered_long long_AB (2015, 2015) = filter (\<lambda>r. year_number (Year r) = 2015) long_AB"
    unfolding filtered_long_def by (intro filter_cong) (auto simp: filtered_long_def)
  from load_frame_AB r dig pl m b f show ?thesis
    by (simp add: list_all_iff)
qed

text \<open>
  The minimum and maximum are taken on the header strings: with the year columns 999
  and 1000 the script's minimum year is 1000 and its maximum year is 999.
\<close>

theorem year_bounds_string_order_counterexample:
  "load_data frame_999
     = Inr (frame_999, [\<lparr>Department = ''A'', Year = ''999'', Budget = 1\<rparr>,
                        \<lparr>Department = ''A'', Year = ''1000'', Budget = 2\<rparr>], [''999'', ''1000''])
   \<and> py_min [''999'', ''1000''] = Inr ''1000''
   \<and> py_max [''999'', ''1000''] = Inr ''999''
   \<and> year_bounds [''999'', ''1000''] = Inr (1000, 999)"
proof -
  have l: "load_data frame_999
     = Inr (frame_999, [\<lparr>Department = ''A'', Year = ''999'', Budget = 1\<rparr>,
                        \<lparr>Department = ''A'', Year = ''1000'', Budget = 2\<rparr>], [''999'', ''1000''])"
    by (simp add: load_data_def frame_999_def rename_columns_def columns_def melt_def
        coerce_dropna_def)
  have m: "py_min [''999'', ''1000''] = Inr ''1000''" "py_max [''999'', ''1000''] = Inr ''999''"
    by (simp_all add: py_min_def py_max_def)
  have i: "py_int ''1000'' = Inr 1000" "py_int ''999'' = Inr 999"
    by (simp_all add: py_int_def py_isspace_def is_digit_def digits_val_def digit_val_def Let_def)
  have b: "year_bounds [''999'', ''1000''] = Inr (1000, 999)"
    by (simp add: year_bounds_def m i and_then_def)
  from l m b show ?thesis by simp
qed

section \<open>Growth metrics\<close>

lemma those_map_Some:
  assumes "\<And>x. x \<in> set xs \<Longrightarrow> f x = Some (g x)"
  shows "those (map f xs) = Some (map g xs)"
  using assms by (induction xs) auto

lemma filter_index_singleton:
  assumes "distinct xs" "i < length xs"
  shows "filter (\<lambda>k. xs ! k = xs ! i) [0..<length xs] = [i]"
proof -
  have "filter (\<lambda>k. xs ! k = xs ! i) [0..<length xs] = filter ((=) i) [0..<length xs]"
    using assms by (intro filter_cong) (auto simp: nth_eq_iff_index_eq)
  also have "\<dots> = [i]"
    using assms(2) by (simp add: filter_eq_singleton)
  finally show ?thesis .
qed

lemma dept_row_unique:
  assumes "distinct (first_values df)" "i < length (first_values df)"
  shows "dept_row df (first_values df ! i) = Inr (map (\<lambda>c. (fst c, snd c ! i)) (other_columns df))"
  by (simp add: dept_row_def filter_index_singleton [OF assms])

lemma series_select_all:
  assumes "distinct (map fst cols)"
  shows "series_select (map (\<lambda>c. (fst c, h c)) cols) (map fst cols) = Inr (map h cols)"
proof -
  have d: "distinct (map fst (map (\<lambda>c. (fst c, h c)) cols))"
    using assms by (simp add: o_def)
  have "map_of (map (\<lambda>c. (fst c, h c)) cols) (fst c) = Some (h c)" if "c \<in> set cols" for c
    using that by (intro map_of_is_SomeI [OF d]) auto
  then have "those (map (map_of (map (\<lambda>c. (fst c, h c)) cols)) (map fst cols)) = Some (map h cols)"
    using those_map_Some [of cols "\<lambda>c. map_of (map (\<lambda>c. (fst c, h c)) cols) (fst c)" h]
    by (simp add: o_def)
  then show ?thesis by (simp add: series_select_def)
qed

lemma compute_growth_values:
  assumes "series_select row year_cols = Inr cs" "astype_float cs = Inr vs" "vs \<noteq> []"
  shows "compute_growth row year_cols
         = Inr (hd vs, last vs, fsub (last vs) (hd vs),
                if nonzero (hd vs) then Some (fmul (fdiv (fsub (last vs) (hd vs)) (hd vs)) (Fin 100))
                else None)"
  using assms by (simp add: compute_growth_def and_then_def Let_def)

lemma astype_float_cases:
  "astype_float cs = (if \<exists>c\<in>set cs. is_text c then Inl ValueError else Inr (map cell_float cs))"
proof (induction cs)
  case Nil
  then show ?case by simp
next
  case (Cons c cs)
  then show ?case by (cases c) (auto simp: and_then_def)
qed

lemma dept_growth_row:
  assumes "load_data df0 = Inr (df, long_df, year_cols)"
    and "rectangular df0" and "distinct (columns df0)" and "distinct (first_values df0)"
    and "i < n_rows df0"
  shows "and_then (dept_row df (first_values df0 ! i)) (\<lambda>row. compute_growth row year_cols)
         = (if \<exists>j<n_year_cols df0. is_text (cell_at df0 j i) then Inl ValueError
            else if n_year_cols df0 = 0 then Inl IndexError
            else Inr (cell_float (cell_at df0 0 i),
                      cell_float (cell_at df0 (n_year_cols df0 - 1) i),
                      fsub (cell_float (cell_at df0 (n_year_cols df0 - 1) i))
                           (cell_float (cell_at df0 0 i)),
                      if nonzero (cell_float (cell_at df0 0 i))
                      then Some (fmul (fdiv (fsub (cell_float (cell_at df0 (n_year_cols df0 - 1) i))
                                                  (cell_float (cell_at df0 0 i)))
                                            (cell_float (cell_at df0 0 i))) (Fin 100))
                      else None))"
proof -
  let ?cols = "other_columns df0"
  let ?cs = "map (\<lambda>c. snd c ! i) ?cols"
  let ?vs = "map cell_float ?cs"
  from load_data_keeps_frame_aux [OF assms(1,3)] load_data_Inr(1) [OF assms(1)]
  have oc: "other_columns df = ?cols" and fv: "first_values df = first_values df0"
    by (simp_all add: rename_columns_def)
  have yc: "year_cols = map fst ?cols"
    by (simp add: load_data_Inr(4) [OF assms(1)] oc)
  from assms(3) have dc: "distinct (map fst ?cols)"
    by (simp add: columns_def)
  from assms(5) have i': "i < length (first_values df)"
    by (simp add: n_rows_def fv)
  have row: "dept_row df (first_values df0 ! i) = Inr (map (\<lambda>c. (fst c, snd c ! i)) ?cols)"
    using dept_row_unique [of df i] assms(4) i' by (simp add: fv oc)
  have sel: "series_select (map (\<lambda>c. (fst c, snd c ! i)) ?cols) year_cols = Inr ?cs"
    unfolding yc by (rule series_select_all [OF dc])
  have tcell: "(\<exists>c\<in>set ?cs. is_text c) \<longleftrightarrow> (\<exists>j<n_year_cols df0. is_text (cell_at df0 j i))"
  proof -
    have "(\<exists>c\<in>set ?cs. is_text c) \<longleftrightarrow> (\<exists>j<length ?cols. is_text (?cs ! j))"
      by (metis (no_types, lifting) in_set_conv_nth length_map)
    then show ?thesis
      by (simp add: n_year_cols_def cell_at_def cong: conj_cong)
  qed
  have lhs: "and_then (dept_row df (first_values df0 ! i)) (\<lambda>row. compute_growth row year_cols)
             = compute_growth (map (\<lambda>c. (fst c, snd c ! i)) ?cols) year_cols"
    by (simp add: row and_then_def)
  show ?thesis
  proof (cases "\<exists>j<n_year_cols df0. is_text (cell_at df0 j i)")
    case True
    with tcell have "astype_float ?cs = Inl ValueError"
      by (simp add: astype_float_cases)
    with True show ?thesis
      unfolding lhs by (simp add: compute_growth_def sel and_then_def)
  next
    case False
    with tcell have ast: "astype_float ?cs = Inr ?vs"
      by (simp add: astype_float_cases)
    show ?thesis
    proof (cases "n_year_cols df0 = 0")
      case True
      then have "?cols = []" by (simp add: n_year_cols_def)
      with False True show ?thesis
        unfolding lhs by (simp add: compute_growth_def series_select_def yc and_then_def)
    next
      case nz: False
      then have ne: "?cols \<noteq> []" by (simp add: n_year_cols_def)
      then have vne: "?vs \<noteq> []" by simp
      from ne have hd: "hd ?vs = cell_float (cell_at df0 0 i)"
        by (simp add: hd_map hd_conv_nth cell_at_def)
      from ne have lst: "last ?vs = cell_float (cell_at df0 (n_year_cols df0 - 1) i)"
        by (simp add: last_map last_conv_nth cell_at_def n_year_cols_def)
      from False nz show ?thesis
        unfolding lhs compute_growth_values [OF sel ast vne] hd lst by simp
    qed
  qed
qed

text \<open>
  Claim C4, as the code has it. The growth metrics of the department tab are computed
  from the wide frame and the full list of year columns: whatever year range is
  selected, the metrics of a department are the same. For a department that names one
  row, start is the float of the cell in the first year column and end the float of
  the cell in the last year column of the table (NaN when that cell is empty, whatever
  the other years hold), the absolute change is end minus start, and the percent
  change is the absolute change divided by start times 100 when start is not 0, and
  absent otherwise; on numbers these are the operations of the reals. A text in the
  row that \<^verbatim>\<open>float\<close> cannot read raises ValueError.
\<close>

theorem growth_over_full_range:
  assumes "load_data df0 = Inr (df, long_df, year_cols)"
    and "rectangular df0" and "distinct (columns df0)" and "distinct (first_values df0)"
  shows "(\<forall>yr1 yr2 k1 k2 d.
            selectbox (dept_options (filtered_long long_df yr1)) k1 = Some d
            \<and> selectbox (dept_options (filtered_long long_df yr2)) k2 = Some d
            \<longrightarrow> tab_dept_growth df (filtered_long long_df yr1) year_cols k1
                = tab_dept_growth df (filtered_long long_df yr2) year_cols k2)
     \<and> (\<forall>yr k i.
            selectbox (dept_options (filtered_long long_df yr)) k = Some (first_values df0 ! i)
            \<and> i < n_rows df0
            \<longrightarrow> tab_dept_growth df (filtered_long long_df yr) year_cols k
                = (if \<exists>j<n_year_cols df0. is_text (cell_at df0 j i) then Inl ValueError
                   else if n_year_cols df0 = 0 then Inl IndexError
                   else Inr (cell_float (cell_at df0 0 i),
                      cell_float (cell_at df0 (n_year_cols df0 - 1) i),
                      fsub (cell_float (cell_at df0 (n_year_cols df0 - 1) i))
                           (cell_float (cell_at df0 0 i)),
                      if nonzero (cell_float (cell_at df0 0 i))
                      then Some (fmul (fdiv (fsub (cell_float (cell_at df0 (n_year_cols df0 - 1) i))
                                                  (cell_float (cell_at df0 0 i)))
                                            (cell_float (cell_at df0 0 i))) (Fin 100))
                      else None)))
     \<and> (\<forall>s e. fsub (Fin e) (Fin s) = Fin (e - s) \<and> (nonzero (Fin s) \<longleftrightarrow> s \<noteq> 0)
            \<and> fmul (fdiv (Fin (e - s)) (Fin s)) (Fin 100) = Fin ((e - s) / s * 100))"
proof -
  have A: "tab_dept_growth df (filtered_long long_df yr1) year_cols k1
                = tab_dept_growth df (filtered_long long_df yr2) year_cols k2"
    if "selectbox (dept_options (filtered_long long_df yr1)) k1 = Some d
            \<and> selectbox (dept_options (filtered_long long_df yr2)) k2 = Some d"
    for yr1 yr2 k1 k2 d
    using that by (simp add: tab_dept_growth_def)
  have B: "tab_dept_growth df (filtered_long long_df yr) year_cols k
                = (if \<exists>j<n_year_cols df0. is_text (cell_at df0 j i) then Inl ValueError
                   else if n_year_cols df0 = 0 then Inl IndexError
                   else Inr (cell_float (cell_at df0 0 i),
                      cell_float (cell_at df0 (n_year_cols df0 - 1) i),
                      fsub (cell_float (cell_at df0 (n_year_cols df0 - 1) i))
                           (cell_float (cell_at df0 0 i)),
                      if nonzero (cell_float (cell_at df0 0 i))
                      then Some (fmul (fdiv (fsub (cell_float (cell_at df0 (n_year_cols df0 - 1) i))
                                                  (cell_float (cell_at df0 0 i)))
                                            (cell_float (cell_at df0 0 i))) (Fin 100))
                      else None))"
    if h: "selectbox (dept_options (filtered_long long_df yr)) k = Some (first_values df0 ! i)
            \<and> i < n_rows df0"
    for yr k i
  proof -
    from h have "tab_dept_growth df (filtered_long long_df yr) year_cols k
         = and_then (dept_row df (first_values df0 ! i)) (\<lambda>row. compute_growth row year_cols)"
      by (simp add: tab_dept_growth_def)
    also from h have "\<dots> = (if \<exists>j<n_year_cols df0. is_text (cell_at df0 j i) then Inl ValueError
                   else if n_year_cols df0 = 0 then Inl IndexError
                   else Inr (cell_float (cell_at df0 0 i),
                      cell_float (cell_at df0 (n_year_cols df0 - 1) i),
                      fsub (cell_float (cell_at df0 (n_year_cols df0 - 1) i))
                           (cell_float (cell_at df0 0 i)),
                      if nonzero (cell_float (cell_at df0 0 i))
                      then Some (fmul (fdiv (fsub (cell_float (cell_at df0 (n_year_cols df0 - 1) i))
                                                  (cell_float (cell_at df0 0 i)))
                                            (cell_float (cell_at df0 0 i))) (Fin 100))
                      else None))"
      by (intro dept_growth_row [OF assms]) simp
    finally show ?thesis .
  qed
  have C: "fsub (Fin e) (Fin s) = Fin (e - s) \<and> (nonzero (Fin s) \<longleftrightarrow> s \<noteq> 0)
            \<and> fmul (fdiv (Fin (e - s)) (Fin s)) (Fin 100) = Fin ((e - s) / s * 100)" for s e
    by simp
  show ?thesis
  proof (intro conjI)
    show "\<forall>yr1 yr2 k1 k2 d.
            selectbox (dept_options (filtered_long long_df yr1)) k1 = Some d
            \<and> selectbox (dept_options (filtered_long long_df yr2)) k2 = Some d
            \<longrightarrow> tab_dept_growth df (filtered_long long_df yr1) year_cols k1
                = tab_dept_growth df (filtered_long long_df yr2) year_cols k2"
      using A by blast
  qed (use B C in blast)+
qed

lemma dept_options_AB:
  "dept_options (filtered_long long_AB (2014, 2015)) = [''A'', ''B'']"
  "dept_options (filtered_long long_AB (2015, 2015)) = [''A'', ''B'']"
  by (simp_all add: dept_options_def filtered_long_def selected_years_def upto.simps py_str_eval
        long_AB_def)

theorem growth_over_full_range_witness:
  "load_data frame_AB = Inr (frame_AB\<lparr>first_header := ''Department''\<rparr>, long_AB, [''2014'', ''2015''])
   \<and> rectangular frame_AB \<and> distinct (columns frame_AB) \<and> distinct (first_values frame_AB)
   \<and> selectbox (dept_options (filtered_long long_AB (2014, 2015))) 1 = Some ''B''
   \<and> selectbox (dept_options (filtered_long long_AB (2015, 2015))) 1 = Some ''B''
   \<and> first_values frame_AB ! 1 = ''B'' \<and> 1 < n_rows frame_AB
   \<and> tab_dept_growth (frame_AB\<lparr>first_header := ''Department''\<rparr>)
         (filtered_long long_AB (2014, 2015)) [''2014'', ''2015''] 1
       = tab_dept_growth (frame_AB\<lparr>first_header := ''Department''\<rparr>)
         (filtered_long long_AB (2015, 2015)) [''2014'', ''2015''] 1
   \<and> tab_dept_growth (frame_AB\<lparr>first_header := ''Department''\<rparr>)
         (filtered_long long_AB (2015, 2015)) [''2014'', ''2015''] 1
       = Inr (Fin 50, Fin 150, Fin 100, Some (Fin 200))"
proof -
  have r: "rectangular frame_AB"
    by (simp add: rectangular_def frame_AB_def)
  have d: "distinct (columns frame_AB)" "distinct (first_values frame_AB)"
    by (simp_all add: frame_AB_def columns_def)
  have s: "selectbox (dept_options (filtered_long long_AB (2014, 2015))) 1 = Some ''B''"
      "selectbox (dept_options (filtered_long long_AB (2015, 2015))) 1 = Some ''B''"
    by (simp_all add: dept_options_AB selectbox_def)
  note T = growth_over_full_range [OF load_frame_AB r d]
  from T [THEN conjunct1, rule_format, OF conjI, OF s]
  have a: "tab_dept_growth (frame_AB\<lparr>first_header := ''Department''\<rparr>)
         (filtered_long long_AB (2014, 2015)) [''2014'', ''2015''] 1
       = tab_dept_growth (frame_AB\<lparr>first_header := ''Department''\<rparr>)
         (filtered_long long_AB (2015, 2015)) [''2014'', ''2015''] 1" .
  have n: "n_rows frame_AB = 2" "n_year_cols frame_AB = 2"
    by (simp_all add: n_rows_def n_year_cols_def frame_AB_def)
  have b1: "first_values frame_AB ! 1 = ''B''"
    by (simp add: frame_AB_def)
  have c: "\<not> (\<exists>j<n_year_cols frame_AB. is_text (cell_at frame_AB j 1))"
  proof -
    have "\<not> is_text (cell_at frame_AB j 1)" if "j < 2" for j
    proof -
      from that have "j = 0 \<or> j = 1" by arith
      then show ?thesis by (auto simp: cell_at_def frame_AB_def)
    qed
    then show ?thesis unfolding n by blast
  qed
  have v: "cell_at frame_AB 0 1 = Num 50" "cell_at frame_AB (n_year_cols frame_AB - 1) 1 = Num 150"
    by (simp_all add: n, simp_all add: cell_at_def frame_AB_def)
  have h: "selectbox (dept_options (filtered_long long_AB (2015, 2015))) 1 = Some (first_values frame_AB ! 1)
            \<and> 1 < n_rows frame_AB"
    unfolding b1 n using s by simp
  have b: "tab_dept_growth (frame_AB\<lparr>first_header := ''Department''\<rparr>)
         (filtered_long long_AB (2015, 2015)) [''2014'', ''2015''] 1
       = Inr (Fin 50, Fin 150, Fin 100, Some (Fin 200))"
    unfolding T [THEN conjunct2, THEN conjunct1, rule_format, OF h] v using c
    by (simp add: n)
  from load_frame_AB r d s a b b1 show ?thesis by (simp add: n)
qed

text \<open>
  The start value is the cell of the first year column, not the department's first year
  with a value: for a department with no value in 2014, 100 in 2015 and 300 in 2016
  the metrics are not the change from 100 to 300 but NaN.
\<close>

theorem growth_first_column_counterexample:
  "load_data frame_late = Inr (frame_late, long_late, [''2014'', ''2015'', ''2016''])
   \<and> dept_options (filtered_long long_late (2014, 2016)) = [''A'']
   \<and> tab_dept_growth frame_late (filtered_long long_late (2014, 2016))
         [''2014'', ''2015'', ''2016''] 0
       = Inr (NaN, Fin 300, NaN, Some NaN)"
proof -
  have l: "load_data frame_late = Inr (frame_late, long_late, [''2014'', ''2015'', ''2016''])"
    by (simp add: load_data_def frame_late_def long_late_def rename_columns_def columns_def melt_def
          coerce_dropna_def)
  have o: "dept_options (filtered_long long_late (2014, 2016)) = [''A'']"
    by (simp add: dept_options_def filtered_long_def selected_years_def upto.simps py_str_eval
          long_late_def)
  have r: "dept_row frame_late ''A'' = Inr [(''2014'', Missing), (''2015'', Num 100), (''2016'', Num 300)]"
    by (simp add: dept_row_def frame_late_def)
  have g: "compute_growth [(''2014'', Missing), (''2015'', Num 100), (''2016'', Num 300)]
             [''2014'', ''2015'', ''2016'']
           = Inr (NaN, Fin 300, NaN, Some NaN)"
    by (simp add: compute_growth_def series_select_def and_then_def)
  have "tab_dept_growth frame_late (filtered_long long_late (2014, 2016))
         [''2014'', ''2015'', ''2016''] 0
       = Inr (NaN, Fin 300, NaN, Some NaN)"
    by (simp add: tab_dept_growth_def o selectbox_def r g and_then_def)
  with l o show ?thesis by simp
qed

section \<open>Headline metrics\<close>

lemma length_nat_digits_le: "0 < k \<Longrightarrow> length (nat_digits n) \<le> k \<longleftrightarrow> n < 10 ^ k"
proof (induction n arbitrary: k rule: nat_digits.induct)
  case (1 n)
  show ?case
  proof (cases "n < 10")
    case True
    have "(10::nat) ^ 1 \<le> 10 ^ k"
      using 1(2) by (intro power_increasing) simp_all
    with True have "n < 10 ^ k" by simp
    with True 1(2) show ?thesis
      by (simp add: nat_digits.simps [of n] Suc_le_eq)
  next
    case False
    then have len: "length (nat_digits n) = Suc (length (nat_digits (n div 10)))"
      by (simp add: nat_digits.simps [of n])
    show ?thesis
    proof (cases "k = 1")
      case True
      with False len nat_digits_props [of "n div 10"] show ?thesis by simp
    next
      case k1: False
      with 1(2) obtain k' where k: "k = Suc k'" "0 < k'"
        by (cases k) auto
      from 1(1) [OF False k(2)]
      have "length (nat_digits (n div 10)) \<le> k' \<longleftrightarrow> n div 10 < 10 ^ k'" .
      moreover have "n div 10 < 10 ^ k' \<longleftrightarrow> n < 10 ^ Suc k'"
        by (simp add: div_less_iff_less_mult mult.commute)
      ultimately show ?thesis by (simp add: len k)
    qed
  qed
qed

lemma length_nat_digits_mono:
  assumes "n \<le> m"
  shows "length (nat_digits n) \<le> length (nat_digits m)"
proof -
  have pos: "0 < length (nat_digits m)"
    using nat_digits_props [of m] by simp
  from length_nat_digits_le [OF pos, of m] have "m < 10 ^ length (nat_digits m)" by simp
  with assms have "n < 10 ^ length (nat_digits m)" by simp
  with length_nat_digits_le [OF pos, of n] show ?thesis by simp
qed

lemma py_str_order_same_length:
  assumes "0 \<le> a" "a \<le> y" "y \<le> b" "length (py_str a) = length (py_str b)"
  shows "py_str a \<le> py_str y \<and> py_str y \<le> py_str b"
proof -
  let ?a = "nat_digits (nat a)" and ?y = "nat_digits (nat y)" and ?b = "nat_digits (nat b)"
  from assms have s: "py_str a = ?a" "py_str y = ?y" "py_str b = ?b"
    by (simp_all add: py_str_def)
  from assms have "length ?a \<le> length ?y" "length ?y \<le> length ?b"
    by (simp_all add: length_nat_digits_mono)
  with assms(4) have len: "length ?a = length ?y" "length ?y = length ?b"
    by (simp_all add: s)
  have dig: "list_all is_digit ?a" "list_all is_digit ?y" "list_all is_digit ?b"
    by (simp_all add: nat_digits_props)
  from assms have "?a \<le> ?y"
    by (simp add: digits_order_le [OF len(1) dig(1,2)] digits_val_nat_digits)
  moreover from assms have "?y \<le> ?b"
    by (simp add: digits_order_le [OF len(2) dig(2,3)] digits_val_nat_digits)
  ultimately show ?thesis by (simp add: s)
qed

lemma selected_years_Min_Max:
  assumes "0 \<le> a" "a \<le> b" "length (py_str a) = length (py_str b)"
  shows "Min (set (selected_years (a, b))) = py_str a"
    and "Max (set (selected_years (a, b))) = py_str b"
proof -
  have fin: "finite (set (selected_years (a, b)))" by simp
  from assms have ma: "py_str a \<in> set (selected_years (a, b))"
    and mb: "py_str b \<in> set (selected_years (a, b))"
    by (simp_all add: selected_years_py_str)
  have bounds: "py_str a \<le> l \<and> l \<le> py_str b" if "l \<in> set (selected_years (a, b))" for l
  proof -
    from that obtain y where "a \<le> y" "y \<le> b" "l = py_str y"
      by (auto simp: set_selected_years)
    with py_str_order_same_length [OF assms(1) _ _ assms(3), of y] show ?thesis by simp
  qed
  show "Min (set (selected_years (a, b))) = py_str a"
    using bounds ma by (intro Min_eqI [OF fin]) auto
  show "Max (set (selected_years (a, b))) = py_str b"
    using bounds mb by (intro Max_eqI [OF fin]) auto
qed

lemma filter_key_map:
  assumes "distinct ks"
  shows "filter (\<lambda>t. fst t = y) (map (\<lambda>k. (k, g k)) ks) = (if y \<in> set ks then [(y, g y)] else [])"
  using assms by (induction ks) auto

lemma total_by_year_lookup:
  "map snd (filter (\<lambda>t. fst t = y) (total_by_year recs))
   = (if \<exists>r\<in>set recs. Year r = y then [year_total recs y] else [])"
proof -
  have "total_by_year recs
     = map (\<lambda>y. (y, year_total recs y)) (sorted_list_of_set (Year ` set recs))"
    by (simp add: total_by_year_eq groupby_sum_def year_total_def
          sorted_list_of_set_sort_remdups [symmetric])
  then show ?thesis
    by (auto simp: filter_key_map)
qed

lemma headline_metrics_cases:
  "headline_metrics filtered selected
   = (if selected = [] then Inl ValueError
      else if \<not> (\<exists>r\<in>set filtered. Year r = Max (set selected)) then Inl IndexError
      else if \<not> (\<exists>r\<in>set filtered. Year r = Min (set selected)) then Inl IndexError
      else Inr (year_total filtered (Min (set selected)),
                year_total filtered (Max (set selected)),
                year_total filtered (Max (set selected)) - year_total filtered (Min (set selected)),
                if year_total filtered (Min (set selected)) \<noteq> 0
                then (year_total filtered (Max (set selected))
                        - year_total filtered (Min (set selected)))
                      / year_total filtered (Min (set selected)) * 100
                else 0))"
proof (cases "selected = []")
  case True
  then show ?thesis
    by (simp add: headline_metrics_def py_max_def and_then_def)
next
  case False
  then show ?thesis
    unfolding headline_metrics_def Let_def py_max_Max [OF False] py_min_Min [OF False]
      total_by_year_lookup
    by (simp add: and_then_def iloc0_def)
qed

text \<open>
  Claim C5, as the code has it. The two percent-change call sites treat a zero start
  differently. In \<open>compute_growth\<close>, a start value of 0 gives no percent change
  (\<^verbatim>\<open>None\<close>, neither an infinity nor an exception), while the absolute change is still
  the end value, 100 for an end of 100, and the delta is rendered as \<^verbatim>\<open>N/A\<close>. The
  headline metrics take as first-year total the total budget of the records whose Year
  is the smallest selected label in string order, and as latest-year total that of the
  largest; when both years have records, the percent change is 0 if this first total is
  0, and the change divided by it times 100 otherwise. For a selected range of
  non-negative years whose numerals have one length, the smallest label is the first
  year of the range and the largest label is its last year.
\<close>

theorem zero_start_policies:
  "(\<forall>cs vs e. series_select row year_cols = Inr cs \<and> astype_float cs = Inr vs \<and> vs \<noteq> []
        \<and> hd vs = Fin 0 \<and> last vs = Fin e
        \<longrightarrow> compute_growth row year_cols = Inr (Fin 0, Fin e, Fin e, None)
            \<and> growth_delta (Fin 0, Fin e, Fin e, None) = Literal ''N/A'')
   \<and> headline_metrics filtered selected
       = (if selected = [] then Inl ValueError
          else if \<not> (\<exists>r\<in>set filtered. Year r = Max (set selected)) then Inl IndexError
          else if \<not> (\<exists>r\<in>set filtered. Year r = Min (set selected)) then Inl IndexError
          else Inr (year_total filtered (Min (set selected)),
                year_total filtered (Max (set selected)),
                year_total filtered (Max (set selected)) - year_total filtered (Min (set selected)),
                if year_total filtered (Min (set selected)) \<noteq> 0
                then (year_total filtered (Max (set selected))
                        - year_total filtered (Min (set selected)))
                      / year_total filtered (Min (set selected)) * 100
                else 0))
   \<and> (\<forall>first latest abs_change pct_change.
        headline_metrics filtered selected = Inr (first, latest, abs_change, pct_change)
        \<longrightarrow> first = year_total filtered (Min (set selected))
            \<and> latest = year_total filtered (Max (set selected))
            \<and> (first = 0 \<longrightarrow> pct_change = 0))
   \<and> (\<forall>a b. 0 \<le> a \<and> a \<le> b \<and> length (py_str a) = length (py_str b)
        \<longrightarrow> Min (set (selected_years (a, b))) = py_str a
            \<and> Max (set (selected_years (a, b))) = py_str b)"
proof -
  have A: "compute_growth row year_cols = Inr (Fin 0, Fin e, Fin e, None)
            \<and> growth_delta (Fin 0, Fin e, Fin e, None) = Literal ''N/A''"
    if "series_select row year_cols = Inr cs \<and> astype_float cs = Inr vs \<and> vs \<noteq> []
        \<and> hd vs = Fin 0 \<and> last vs = Fin e" for cs vs e
    using that compute_growth_values [of row year_cols cs vs]
    by (simp add: growth_delta_def)
  note B = headline_metrics_cases [of filtered selected]
  have C: "first = year_total filtered (Min (set selected))
            \<and> latest = year_total filtered (Max (set selected))
            \<and> (first = 0 \<longrightarrow> pct_change = 0)"
    if "headline_metrics filtered selected = Inr (first, latest, abs_change, pct_change)"
    for first latest abs_change pct_change
    using that unfolding B by (auto split: if_splits)
  have D: "Min (set (selected_years (a, b))) = py_str a
            \<and> Max (set (selected_years (a, b))) = py_str b"
    if "0 \<le> a \<and> a \<le> b \<and> length (py_str a) = length (py_str b)" for a b
    using that selected_years_Min_Max [of a b] by simp
  show ?thesis
  proof (intro conjI)
    show "headline_metrics filtered selected
       = (if selected = [] then Inl ValueError
          else if \<not> (\<exists>r\<in>set filtered. Year r = Max (set selected)) then Inl IndexError
          else if \<not> (\<exists>r\<in>set filtered. Year r = Min (set selected)) then Inl IndexError
          else Inr (year_total filtered (Min (set selected)),
                year_total filtered (Max (set selected)),
                year_total filtered (Max (set selected)) - year_total filtered (Min (set selected)),
                if year_total filtered (Min (set selected)) \<noteq> 0
                then (year_total filtered (Max (set selected))
                        - year_total filtered (Min (set selected)))
                      / year_total filtered (Min (set selected)) * 100
                else 0))"
      by (rule B)
  qed (use A C D in blast)+
qed

theorem zero_start_policies_witness:
  "compute_growth [(''2014'', Num 0), (''2015'', Num 100)] [''2014'', ''2015'']
     = Inr (Fin 0, Fin 100, Fin 100, None)
   \<and> growth_delta (Fin 0, Fin 100, Fin 100, None) = Literal ''N/A''
   \<and> Min (set (selected_years (2014, 2015))) = ''2014''
   \<and> year_total (filtered_long long_zero (2014, 2015)) ''2014'' = 0
   \<and> headline_metrics (filtered_long long_zero (2014, 2015)) (selected_years (2014, 2015))
       = Inr (0, 100, 100, 0)"
proof -
  have s: "series_select [(''2014'', Num 0), (''2015'', Num 100)] [''2014'', ''2015'']
             = Inr [Num 0, Num 100]
           \<and> astype_float [Num 0, Num 100] = Inr [Fin 0, Fin 100] \<and> [Fin 0, Fin 100] \<noteq> []
           \<and> hd [Fin 0, Fin 100] = Fin 0 \<and> last [Fin 0, Fin 100] = Fin 100"
    by (simp add: series_select_def and_then_def)
  have y: "selected_years (2014, 2015) = [''2014'', ''2015'']"
    by (simp add: selected_years_def upto.simps py_str_eval)
  have f: "filtered_long long_zero (2014, 2015) = long_zero"
    by (simp add: filtered_long_def y long_zero_def)
  have l: "(0::int) \<le> 2014 \<and> (2014::int) \<le> 2015 \<and> length (py_str 2014) = length (py_str 2015)"
    by (simp add: py_str_eval)
  have t: "year_total long_zero ''2014'' = 0" "year_total long_zero ''2015'' = 100"
    by (simp_all add: year_total_def long_zero_def)
  have e: "\<exists>r\<in>set long_zero. Year r = ''2014''" "\<exists>r\<in>set long_zero. Year r = ''2015''"
    by (simp_all add: long_zero_def)
  note T = zero_start_policies [of "[(''2014'', Num 0), (''2015'', Num 100)]" "[''2014'', ''2015'']"
      "filtered_long long_zero (2014, 2015)" "selected_years (2014, 2015)"]
  from T [THEN conjunct1, rule_format, OF s]
  have a: "compute_growth [(''2014'', Num 0), (''2015'', Num 100)] [''2014'', ''2015'']
            = Inr (Fin 0, Fin 100, Fin 100, None)
           \<and> growth_delta (Fin 0, Fin 100, Fin 100, None) = Literal ''N/A''" .
  from T [THEN conjunct2, THEN conjunct2, THEN conjunct2, rule_format, OF l]
  have m: "Min (set (selected_years (2014, 2015))) = ''2014''"
      "Max (set (selected_years (2014, 2015))) = ''2015''"
    by (simp_all add: py_str_eval)
  have ne: "selected_years (2014, 2015) \<noteq> []" by (simp add: y)
  from T [THEN conjunct2, THEN conjunct1]
  have h: "headline_metrics (filtered_long long_zero (2014, 2015)) (selected_years (2014, 2015))
       = Inr (0, 100, 100, 0)"
    unfolding m f using ne e by (simp add: t)
  from a m(1) t(1) h show ?thesis by (simp add: f)
qed

text \<open>
  The first-year total is that of the smallest label in string order: for the selected
  years 9 and 10 this is year 10. The total of year 9 is 0, yet the percent change is
  not 0.
\<close>

theorem headline_first_year_counterexample:
  "filtered_long long_first_zero (9, 10) = long_first_zero
   \<and> year_total long_first_zero (py_str 9) = 0
   \<and> headline_metrics (filtered_long long_first_zero (9, 10)) (selected_years (9, 10))
       = Inr (5, 0, - 5, - 100)"
proof -
  have y: "selected_years (9, 10) = [''9'', ''10'']"
    by (simp add: selected_years_def upto.simps py_str_eval)
  have f: "filtered_long long_first_zero (9, 10) = long_first_zero"
    by (simp add: filtered_long_def y long_first_zero_def)
  have z: "year_total long_first_zero (py_str 9) = 0"
    by (simp add: year_total_def long_first_zero_def py_str_eval)
  have t: "total_by_year long_first_zero = [(''10'', 5), (''9'', 0)]"
    by (simp add: long_first_zero_def total_by_year_def groupby_sum_def)
  have h: "headline_metrics long_first_zero [''9'', ''10''] = Inr (5, 0, - 5, - 100)"
    by (simp add: headline_metrics_def t py_min_def py_max_def iloc0_def and_then_def)
  from f z h show ?thesis by (simp add: y)
qed

section \<open>Empty selections\<close>

text \<open>
  Claim C7. The filter and total-by-year return a (possibly empty) result for every
  record set. The headline metrics do not: they read the first row
  of the totals of the first and of the latest selected year, and raise IndexError
  when the selection holds no record of that year. With year columns 2014 and 2016
  the slider offers 2015; for the range 2015 to 2015 the filter returns the empty
  record set, total-by-year is empty, and the headline metrics raise.
\<close>

theorem headline_metrics_empty_selection:
  "prepare frame_gap_year (2015, 2015)
     = Inr (frame_gap_year, long_gap_year, [''2014'', ''2016''], [])
   \<and> year_bounds [''2014'', ''2016''] = Inr (2014, 2016)
   \<and> total_by_year (filtered_long long_gap_year (2015, 2015)) = []
   \<and> headline_metrics (filtered_long long_gap_year (2015, 2015)) (selected_years (2015, 2015))
       = Inl IndexError"
proof -
  have l: "load_data frame_gap_year = Inr (frame_gap_year, long_gap_year, [''2014'', ''2016''])"
    by (simp add: load_data_def frame_gap_year_def long_gap_year_def rename_columns_def columns_def
          melt_def coerce_dropna_def)
  have i: "py_int ''2014'' = Inr 2014" "py_int ''2016'' = Inr 2016"
    by (simp_all add: py_int_def py_isspace_def is_digit_def digits_val_def digit_val_def Let_def)
  have b: "year_bounds [''2014'', ''2016''] = Inr (2014, 2016)"
    by (simp add: year_bounds_def py_min_def py_max_def i and_then_def)
  have s: "selected_years (2015, 2015) = [''2015'']"
    by (simp add: selected_years_def upto.simps py_str_eval)
  have f: "filtered_long long_gap_year (2015, 2015) = []"
    by (simp add: filtered_long_def s long_gap_year_def)
  have t: "total_by_year [] = []"
    by (simp add: total_by_year_def groupby_sum_def)
  have h: "headline_metrics [] [''2015''] = Inl IndexError"
    by (simp add: headline_metrics_def t py_max_def iloc0_def and_then_def)
  have p: "prepare frame_gap_year (2015, 2015)
     = Inr (frame_gap_year, long_gap_year, [''2014'', ''2016''], [])"
    by (simp add: prepare_def l b f and_then_def)
  from p b f t h s show ?thesis by simp
qed

section \<open>Ingestion of a table without year columns\<close>





end
